theory Spec2Isabelle
  imports Main "HOL-Library.Sublist"
begin

section \<open>The pipeline schedule (oobleck/execution/pipeline.py, OobleckPipelineSchedule)\<close>

text \<open>
  The instructions of \<^verbatim>\<open>deepspeed.runtime.pipe.schedule\<close> that the instruction map of
  pipeline.py dispatches on. Every instruction but the optimizer step carries the
  \<^verbatim>\<open>buffer_id\<close> keyword argument.
\<close>

datatype instr =
    OptimizerStep
  | LoadMicroBatch int
  | ForwardPass int
  | BackwardPass int
  | SendActivation int
  | RecvActivation int
  | SendGrad int
  | RecvGrad int

fun buffer_id_of :: "instr \<Rightarrow> int option" where
  "buffer_id_of OptimizerStep = None"
| "buffer_id_of (LoadMicroBatch b) = Some b"
| "buffer_id_of (ForwardPass b) = Some b"
| "buffer_id_of (BackwardPass b) = Some b"
| "buffer_id_of (SendActivation b) = Some b"
| "buffer_id_of (RecvActivation b) = Some b"
| "buffer_id_of (SendGrad b) = Some b"
| "buffer_id_of (RecvGrad b) = Some b"

fun is_ForwardPass :: "instr \<Rightarrow> bool" where
  "is_ForwardPass (ForwardPass b) = True"
| "is_ForwardPass i = False"

fun is_BackwardPass :: "instr \<Rightarrow> bool" where
  "is_BackwardPass (BackwardPass b) = True"
| "is_BackwardPass i = False"

fun is_RecvActivation :: "instr \<Rightarrow> bool" where
  "is_RecvActivation (RecvActivation b) = True"
| "is_RecvActivation i = False"

fun is_SendActivation :: "instr \<Rightarrow> bool" where
  "is_SendActivation (SendActivation b) = True"
| "is_SendActivation i = False"

fun is_SendGrad :: "instr \<Rightarrow> bool" where
  "is_SendGrad (SendGrad b) = True"
| "is_SendGrad i = False"

fun is_RecvGrad :: "instr \<Rightarrow> bool" where
  "is_RecvGrad (RecvGrad b) = True"
| "is_RecvGrad i = False"

text \<open>
  The constructor arguments of a schedule: \<^verbatim>\<open>micro_batches\<close>, \<^verbatim>\<open>stages\<close> and
  \<^verbatim>\<open>stage_id\<close>, Python integers.
\<close>

record schedule =
  micro_batches :: int
  stages :: int
  stage_id :: int

subsection \<open>Methods inherited from DeepSpeed's TrainSchedule\<close>

text \<open>
  Modelled from the spec: \<^verbatim>\<open>OobleckPipelineSchedule\<close> extends
  \<^verbatim>\<open>deepspeed.runtime.pipe.schedule.TrainSchedule\<close>, whose source is not part of the
  tree. The spec names the step mapping "the standard 1F1B interleaving" and gives
  \<^verbatim>\<open>buf(mb) = mb mod num_pipe_buffers\<close>; the definitions below are the methods of
  DeepSpeed's \<^verbatim>\<open>PipeSchedule\<close> and \<^verbatim>\<open>TrainSchedule\<close> that \<^verbatim>\<open>steps\<close> calls:
  \<^verbatim>\<open>prev_stage = stage_id - 1\<close>, \<^verbatim>\<open>next_stage = stage_id + 1\<close>,
  \<^verbatim>\<open>_valid_micro_batch\<close>, \<^verbatim>\<open>_valid_stage\<close>, \<^verbatim>\<open>_buffer_idx\<close> and
  \<^verbatim>\<open>_step_to_micro_batch\<close> with its four id helpers. Python's \<^verbatim>\<open>//\<close> is floor
  division, as \<open>div\<close> on \<open>int\<close> is.
\<close>

definition prev_stage :: "schedule \<Rightarrow> int" where
  "prev_stage sch = stage_id sch - 1"

definition next_stage :: "schedule \<Rightarrow> int" where
  "next_stage sch = stage_id sch + 1"

definition valid_micro_batch :: "schedule \<Rightarrow> int \<Rightarrow> bool" where
  "valid_micro_batch sch micro_batch_id \<longleftrightarrow>
     0 \<le> micro_batch_id \<and> micro_batch_id < micro_batches sch"

definition valid_stage :: "schedule \<Rightarrow> int \<Rightarrow> bool" where
  "valid_stage sch st \<longleftrightarrow> 0 \<le> st \<and> st < stages sch"

definition even_step_forward_id :: "schedule \<Rightarrow> int \<Rightarrow> int" where
  "even_step_forward_id sch step_id = (step_id div 2) - stage_id sch div 2"

definition odd_step_forward_id :: "schedule \<Rightarrow> int \<Rightarrow> int" where
  "odd_step_forward_id sch step_id = ((step_id - 1) div 2) - stage_id sch div 2"

definition even_step_backward_id :: "schedule \<Rightarrow> int \<Rightarrow> int" where
  "even_step_backward_id sch step_id =
     (step_id div 2) - stages sch + (stage_id sch + 1) div 2"

definition odd_step_backward_id :: "schedule \<Rightarrow> int \<Rightarrow> int" where
  "odd_step_backward_id sch step_id =
     (((step_id - 1) div 2) - stages sch + 1) + stage_id sch div 2"

text \<open>
  \<^verbatim>\<open>_step_to_micro_batch\<close> returns the pair \<^verbatim>\<open>(micro_batch_id, is_forward)\<close>. Its four
  branches cover every parity of step and stage, so the closing \<^verbatim>\<open>assert False\<close> is
  never reached and the last branch is written as the \<open>else\<close>.
\<close>

definition step_to_micro_batch :: "schedule \<Rightarrow> int \<Rightarrow> int \<times> bool" where
  "step_to_micro_batch sch step_id =
     (if step_id mod 2 = 0 \<and> stage_id sch mod 2 = 0
        then (even_step_forward_id sch step_id, True)
      else if step_id mod 2 \<noteq> 0 \<and> stage_id sch mod 2 \<noteq> 0
        then (odd_step_forward_id sch step_id, True)
      else if step_id mod 2 = 0 \<and> stage_id sch mod 2 \<noteq> 0
        then (even_step_backward_id sch step_id, False)
      else (odd_step_backward_id sch step_id, False))"

subsection \<open>Methods of OobleckPipelineSchedule\<close>

definition num_pipe_buffers :: "schedule \<Rightarrow> int" where
  "num_pipe_buffers sch =
     (let buffers = min (stages sch - stage_id sch) (micro_batches sch)
      in max 2 buffers)"

text \<open>
  \<^verbatim>\<open>_buffer_idx\<close> asserts that the microbatch id is valid; \<^verbatim>\<open>steps\<close> calls it, and
  reads \<^verbatim>\<open>prev_buffer\<close> and \<^verbatim>\<open>curr_buffer\<close>, only under that same test, so the
  assertion holds at every call and the two variables are bound at every read.
\<close>

definition buffer_idx :: "schedule \<Rightarrow> int \<Rightarrow> int" where
  "buffer_idx sch micro_batch_id = micro_batch_id mod num_pipe_buffers sch"

text \<open>
  The body of the loop of \<^verbatim>\<open>steps\<close> for one \<^verbatim>\<open>step_id\<close>: the list \<^verbatim>\<open>cmds\<close> it
  yields, given the \<^verbatim>\<open>prev_micro_batch_id\<close> left by the previous iteration.
\<close>

definition step_cmds :: "schedule \<Rightarrow> int \<Rightarrow> int \<Rightarrow> instr list" where
  "step_cmds sch prev_micro_batch_id step_id =
     (let (micro_batch_id, is_forward) = step_to_micro_batch sch step_id;
          prev_buffer = buffer_idx sch prev_micro_batch_id;
          curr_buffer = buffer_idx sch micro_batch_id
      in
        (if is_forward then
           (if valid_micro_batch sch prev_micro_batch_id \<and> valid_stage sch (prev_stage sch)
              then [SendGrad prev_buffer] else []) @
           (if valid_micro_batch sch micro_batch_id \<and> valid_stage sch (prev_stage sch)
              then [RecvActivation curr_buffer] else [])
         else
           (if valid_micro_batch sch micro_batch_id \<and> valid_stage sch (next_stage sch)
              then [RecvGrad curr_buffer] else []) @
           (if valid_micro_batch sch prev_micro_batch_id \<and> valid_stage sch (next_stage sch)
              then [SendActivation prev_buffer] else [])) @
        (if stage_id sch = 0 \<or> stage_id sch = stages sch - 1 then
           (if is_forward \<and> valid_micro_batch sch micro_batch_id
              then [LoadMicroBatch curr_buffer] else [])
         else []) @
        (if valid_micro_batch sch micro_batch_id then
           (if is_forward then [ForwardPass curr_buffer] else [BackwardPass curr_buffer])
         else []))"

text \<open>
  The loop over \<^verbatim>\<open>range(total_steps)\<close>, carrying \<^verbatim>\<open>prev_micro_batch_id\<close> from one
  iteration to the next; the generator's yields are collected in a list.
\<close>

fun steps_loop :: "schedule \<Rightarrow> int \<Rightarrow> nat list \<Rightarrow> instr list list" where
  "steps_loop sch prev_micro_batch_id [] = []"
| "steps_loop sch prev_micro_batch_id (step_id # rest) =
     step_cmds sch prev_micro_batch_id (int step_id) #
     steps_loop sch (fst (step_to_micro_batch sch (int step_id))) rest"

definition total_steps :: "schedule \<Rightarrow> int" where
  "total_steps sch = 2 * (micro_batches sch + stages sch - 1)"

definition steps :: "schedule \<Rightarrow> instr list list" where
  "steps sch = steps_loop sch (- 1) [0 ..< nat (total_steps sch)]"

text \<open>
  A step is a valid forward (backward) step when \<^verbatim>\<open>_step_to_micro_batch\<close> maps it to a
  forward (backward) pass of a valid microbatch: the test under which \<^verbatim>\<open>steps\<close> emits
  the computation instruction.
\<close>

definition fwd_valid :: "schedule \<Rightarrow> int \<Rightarrow> bool" where
  "fwd_valid sch t \<longleftrightarrow>
     snd (step_to_micro_batch sch t) \<and> valid_micro_batch sch (fst (step_to_micro_batch sch t))"

definition bwd_valid :: "schedule \<Rightarrow> int \<Rightarrow> bool" where
  "bwd_valid sch t \<longleftrightarrow>
     \<not> snd (step_to_micro_batch sch t) \<and> valid_micro_batch sch (fst (step_to_micro_batch sch t))"

text \<open>
  The distinct \<^verbatim>\<open>buffer_id\<close> values of an instruction stream, in order of first use.
\<close>

definition distinct_buffer_ids :: "instr list list \<Rightarrow> int list" where
  "distinct_buffer_ids groups = remdups (List.map_filter buffer_id_of (concat groups))"

section \<open>Tensors, Python values and errors\<close>

text \<open>
  The element types a tensor can have: the ten the dtype table of the project covers.
\<close>

datatype dtype =
  Float16 | BFloat16 | Float32 | Float64 | Int8 | Int16 | Int32 | Int64 | Bool | UInt8

datatype device = CPU | CUDA

text \<open>
  What the code reads of a \<^verbatim>\<open>torch.Tensor\<close>: its shape, dtype, device and
  \<^verbatim>\<open>requires_grad\<close> flag, its elements in row-major order (the integers themselves for
  an integer tensor, an integer encoding of each element otherwise; the code only copies
  them) and its \<^verbatim>\<open>.grad\<close>. PyTorch gives \<^verbatim>\<open>t.grad\<close> the shape, dtype and device of
  \<^verbatim>\<open>t\<close>, so the field keeps the elements of the gradient and \<open>grad_of\<close> builds the
  tensor.
\<close>

record tensor =
  shape :: "nat list"
  dtype :: dtype
  device :: device
  requires_grad :: bool
  data :: "int list"
  grad :: "int list option"

definition grad_of :: "tensor \<Rightarrow> tensor option" where
  "grad_of t =
     (case grad t of
        None \<Rightarrow> None
      | Some g \<Rightarrow> Some \<lparr>shape = shape t, dtype = dtype t, device = device t,
                         requires_grad = False, data = g, grad = None\<rparr>)"

definition is_floating_point :: "tensor \<Rightarrow> bool" where
  "is_floating_point t \<longleftrightarrow> dtype t \<in> {Float16, BFloat16, Float32, Float64}"

text \<open>
  Python values as the code tells them apart by \<^verbatim>\<open>isinstance\<close>: \<^verbatim>\<open>None\<close>, a tensor, a
  tuple, a list, a mapping (its items in order) and any other object, kept opaque.
\<close>

datatype pyval =
    PNone
  | PTensor tensor
  | PTuple "pyval list"
  | PList "pyval list"
  | PMapping "(string \<times> pyval) list"
  | POther string

text \<open>
  The exceptions of the model. \<open>WouldBlock\<close> stands for a blocking receive that finds no
  message on its queue, \<open>SizeMismatch\<close> for a receive whose buffer does not have the shape
  and dtype of the message: the process group is outside the source, and both stop the
  call.
\<close>

datatype error =
    AssertionError
  | AttributeError
  | IndexError
  | KeyError
  | RuntimeError
  | StopIteration
  | WouldBlock
  | SizeMismatch

text \<open>
  The position a Python list index denotes: \<open>i\<close> itself from the front, \<open>len + i\<close>
  when \<open>i\<close> is negative, and none outside \<open>[-len, len)\<close>, where indexing raises
  \<^verbatim>\<open>IndexError\<close>.
\<close>

definition py_index :: "'a list \<Rightarrow> int \<Rightarrow> nat option" where
  "py_index xs i =
     (if 0 \<le> i \<and> i < int (length xs) then Some (nat i)
      else if i < 0 \<and> - int (length xs) \<le> i then Some (nat (int (length xs) + i))
      else None)"

definition getitem :: "'a list \<Rightarrow> int \<Rightarrow> error + 'a" where
  "getitem xs i = (case py_index xs i of None \<Rightarrow> Inl IndexError | Some j \<Rightarrow> Inr (xs ! j))"

definition setitem :: "'a list \<Rightarrow> int \<Rightarrow> 'a \<Rightarrow> error + 'a list" where
  "setitem xs i v =
     (case py_index xs i of None \<Rightarrow> Inl IndexError | Some j \<Rightarrow> Inr (xs[j := v]))"

text \<open>
  \<^verbatim>\<open>torch.LongTensor(data=xs).to(self.device)\<close>, \<^verbatim>\<open>torch.zeros(shape, device=self.device,
  dtype=..., requires_grad=...)\<close>, \<^verbatim>\<open>torch.zeros_like(t)\<close> and \<^verbatim>\<open>t.item()\<close>.
  \<^verbatim>\<open>torch.zeros\<close> raises on a negative dimension and when asked for a gradient on a
  dtype that is not floating point; \<^verbatim>\<open>item\<close> raises unless the tensor has one element.
\<close>

definition long_tensor :: "int list \<Rightarrow> tensor" where
  "long_tensor xs =
     \<lparr>shape = [length xs], dtype = Int64, device = CUDA, requires_grad = False,
      data = xs, grad = None\<rparr>"

definition zeros :: "int list \<Rightarrow> dtype \<Rightarrow> bool \<Rightarrow> error + tensor" where
  "zeros dims dt req_grad =
     (if \<exists>d \<in> set dims. d < 0 then Inl RuntimeError
      else if req_grad \<and> dt \<notin> {Float16, BFloat16, Float32, Float64} then Inl RuntimeError
      else Inr \<lparr>shape = map nat dims, dtype = dt, device = CUDA, requires_grad = req_grad,
                data = replicate (prod_list (map nat dims)) 0, grad = None\<rparr>)"

definition zeros_like :: "tensor \<Rightarrow> tensor" where
  "zeros_like t =
     \<lparr>shape = shape t, dtype = dtype t, device = device t, requires_grad = False,
      data = replicate (prod_list (shape t)) 0, grad = None\<rparr>"

definition item :: "tensor \<Rightarrow> error + int" where
  "item t = (case data t of [x] \<Rightarrow> Inr x | _ \<Rightarrow> Inl RuntimeError)"

section \<open>The transport (PipelineCommunication)\<close>

text \<open>
  A queue of tensors in flight between two neighbouring ranks, oldest first. The process
  group delivers the messages of one sender to one receiver in order.
\<close>

type_synonym wire = "tensor list"

text \<open>
  The state the four transport operations of one stage read and write: the three lists of
  \<^verbatim>\<open>pipe_buffers\<close>, the three attributes of \<^verbatim>\<open>PipelineCommunication\<close>, and the four
  queues of the stage: what it has sent to \<^verbatim>\<open>next_rank\<close> and to \<^verbatim>\<open>prev_rank\<close>, and what
  is waiting for it from \<^verbatim>\<open>prev_rank\<close> and from \<^verbatim>\<open>next_rank\<close>. The stage runtime adds
  the dataloader iterator, the layer indices of the stage and the layer count of the
  model.
\<close>

record pipeline =
  inputs :: "pyval list"
  labels :: "pyval list"
  outputs :: "pyval list"
  sent_activation_meta :: bool
  activation_recv_buf :: "tensor list option"
  grad_recv_buf :: "tensor list option"
  to_next :: wire
  to_prev :: wire
  from_prev :: wire
  from_next :: wire
  data_iterator :: "pyval list"
  model_layers :: "int list"
  total_num_layers :: int

text \<open>
  \<^verbatim>\<open>_send\<close> puts the tensor on the queue. \<^verbatim>\<open>_recv\<close> fills the given buffer in place from
  the oldest message; the model returns the filled buffer and the rest of the queue.
\<close>

definition send :: "tensor \<Rightarrow> wire \<Rightarrow> wire" where
  "send t w = w @ [t]"

definition recv :: "tensor \<Rightarrow> wire \<Rightarrow> error + (tensor \<times> wire)" where
  "recv buffer w =
     (case w of
        [] \<Rightarrow> Inl WouldBlock
      | m # rest \<Rightarrow>
          if shape m = shape buffer \<and> dtype m = dtype buffer
          then Inr (buffer\<lparr>data := data m\<rparr>, rest)
          else Inl SizeMismatch)"

subsection \<open>send_activations\<close>

text \<open>
  The dtype tables \<^verbatim>\<open>DTYPE_TO_ID\<close> and \<^verbatim>\<open>ID_TO_DTYPE\<close> of oobleck.execution.utils are
  not part of the tree; they are parameters of the functions that index them, and a
  missing key raises \<^verbatim>\<open>KeyError\<close>.
\<close>

text \<open>
  One iteration of the loop of \<^verbatim>\<open>_send_activation_meta\<close>: the four tensors are built (the
  dtype lookup can raise) and then sent.
\<close>

definition send_tensor_meta :: "(dtype \<rightharpoonup> int) \<Rightarrow> pyval \<Rightarrow> wire \<Rightarrow> error + wire" where
  "send_tensor_meta DTYPE_TO_ID v w =
     (case v of
        PTensor t \<Rightarrow>
          (case DTYPE_TO_ID (dtype t) of
             None \<Rightarrow> Inl KeyError
           | Some code \<Rightarrow>
               (let send_ndims = long_tensor [int (length (shape t))];
                    send_dtype = long_tensor [code];
                    send_shape = long_tensor (map int (shape t));
                    send_req_grad = long_tensor [if requires_grad t then 1 else 0]
                in Inr (send send_req_grad (send send_shape (send send_dtype
                         (send send_ndims w))))))
      | _ \<Rightarrow> Inl AssertionError)"

fun send_meta_loop :: "(dtype \<rightharpoonup> int) \<Rightarrow> pyval list \<Rightarrow> wire \<Rightarrow> error + wire" where
  "send_meta_loop DTYPE_TO_ID [] w = Inr w"
| "send_meta_loop DTYPE_TO_ID (v # vs) w =
     (case send_tensor_meta DTYPE_TO_ID v w of
        Inl e \<Rightarrow> Inl e
      | Inr w' \<Rightarrow> send_meta_loop DTYPE_TO_ID vs w')"

definition send_activation_meta :: "(dtype \<rightharpoonup> int) \<Rightarrow> pyval \<Rightarrow> wire \<Rightarrow> error + wire" where
  "send_activation_meta DTYPE_TO_ID buffer w =
     (case buffer of
        PTuple vs \<Rightarrow>
          (let count_tensor = long_tensor [int (length vs)]
           in send_meta_loop DTYPE_TO_ID vs (send count_tensor w))
      | _ \<Rightarrow> Inl AssertionError)"

fun send_payload_loop :: "pyval list \<Rightarrow> wire \<Rightarrow> error + wire" where
  "send_payload_loop [] w = Inr w"
| "send_payload_loop (v # vs) w =
     (case v of
        PTensor t \<Rightarrow> send_payload_loop vs (send t w)
      | _ \<Rightarrow> Inl AssertionError)"

definition send_activations :: "(dtype \<rightharpoonup> int) \<Rightarrow> int \<Rightarrow> pipeline \<Rightarrow> error + pipeline" where
  "send_activations DTYPE_TO_ID buffer_id p =
     (case getitem (outputs p) buffer_id of
        Inl e \<Rightarrow> Inl e
      | Inr outs \<Rightarrow>
          (case (if \<not> sent_activation_meta p then
                   (case send_activation_meta DTYPE_TO_ID outs (to_next p) of
                      Inl e \<Rightarrow> Inl e
                    | Inr w \<Rightarrow> Inr (p\<lparr>to_next := w, sent_activation_meta := True\<rparr>))
                 else Inr p) of
             Inl e \<Rightarrow> Inl e
           | Inr p1 \<Rightarrow>
               (case outs of
                  PTuple vs \<Rightarrow>
                    (case send_payload_loop vs (to_next p1) of
                       Inl e \<Rightarrow> Inl e
                     | Inr w \<Rightarrow> Inr (p1\<lparr>to_next := w\<rparr>))
                | _ \<Rightarrow> Inl AssertionError)))"

subsection \<open>recv_activations\<close>

text \<open>
  One iteration of the loop of \<^verbatim>\<open>create_receive_buffer\<close>. \<^verbatim>\<open>[1] * recv_ndims\<close> is the
  empty list when \<^verbatim>\<open>recv_ndims\<close> is negative, as \<open>replicate (nat recv_ndims)\<close> is.
\<close>

definition recv_tensor_meta :: "(int \<rightharpoonup> dtype) \<Rightarrow> wire \<Rightarrow> error + (tensor \<times> wire)" where
  "recv_tensor_meta ID_TO_DTYPE w =
     (case recv (long_tensor [0]) w of
        Inl e \<Rightarrow> Inl e
      | Inr (t1, w1) \<Rightarrow>
     (case item t1 of
        Inl e \<Rightarrow> Inl e
      | Inr recv_ndims \<Rightarrow>
     (case recv (long_tensor [0]) w1 of
        Inl e \<Rightarrow> Inl e
      | Inr (t2, w2) \<Rightarrow>
     (case item t2 of
        Inl e \<Rightarrow> Inl e
      | Inr code \<Rightarrow>
     (case ID_TO_DTYPE code of
        None \<Rightarrow> Inl KeyError
      | Some recv_dtype \<Rightarrow>
     (case recv (long_tensor (replicate (nat recv_ndims) 1)) w2 of
        Inl e \<Rightarrow> Inl e
      | Inr (t3, w3) \<Rightarrow>
     (let recv_shape = data t3 in
     (case recv (long_tensor [0]) w3 of
        Inl e \<Rightarrow> Inl e
      | Inr (t4, w4) \<Rightarrow>
     (case item t4 of
        Inl e \<Rightarrow> Inl e
      | Inr g \<Rightarrow>
     (let recv_req_grad = (g = 1) in
     (case zeros recv_shape recv_dtype recv_req_grad of
        Inl e \<Rightarrow> Inl e
      | Inr z \<Rightarrow> Inr (z, w4))))))))))))"

fun create_receive_loop ::
  "(int \<rightharpoonup> dtype) \<Rightarrow> nat \<Rightarrow> wire \<Rightarrow> tensor list \<Rightarrow> error + (tensor list \<times> wire)" where
  "create_receive_loop ID_TO_DTYPE 0 w buffers = Inr (buffers, w)"
| "create_receive_loop ID_TO_DTYPE (Suc n) w buffers =
     (case recv_tensor_meta ID_TO_DTYPE w of
        Inl e \<Rightarrow> Inl e
      | Inr (z, w') \<Rightarrow> create_receive_loop ID_TO_DTYPE n w' (buffers @ [z]))"

definition create_receive_buffer ::
  "(int \<rightharpoonup> dtype) \<Rightarrow> wire \<Rightarrow> error + (tensor list \<times> wire)" where
  "create_receive_buffer ID_TO_DTYPE w =
     (case recv (long_tensor [0]) w of
        Inl e \<Rightarrow> Inl e
      | Inr (count_tensor, w1) \<Rightarrow>
          (case item count_tensor of
             Inl e \<Rightarrow> Inl e
           | Inr num_tensors \<Rightarrow> create_receive_loop ID_TO_DTYPE (nat num_tensors) w1 []))"

text \<open>
  The payload loop of \<^verbatim>\<open>recv_activations\<close>: each persistent buffer is filled in place,
  and its detached clone, with the buffer's \<^verbatim>\<open>requires_grad\<close>, goes to \<^verbatim>\<open>recvd\<close>. The
  result is the filled buffers, the clones and the rest of the queue.
\<close>

definition clone_detach :: "tensor \<Rightarrow> tensor" where
  "clone_detach t = t\<lparr>requires_grad := False, grad := None\<rparr>"

fun recv_payload_loop ::
  "tensor list \<Rightarrow> wire \<Rightarrow> error + (tensor list \<times> tensor list \<times> wire)" where
  "recv_payload_loop [] w = Inr ([], [], w)"
| "recv_payload_loop (buffer # rest) w =
     (case recv buffer w of
        Inl e \<Rightarrow> Inl e
      | Inr (filled, w1) \<Rightarrow>
          (case recv_payload_loop rest w1 of
             Inl e \<Rightarrow> Inl e
           | Inr (bufs, recvd, w2) \<Rightarrow>
               Inr (filled # bufs,
                    (clone_detach filled)\<lparr>requires_grad := requires_grad filled\<rparr> # recvd,
                    w2)))"

definition recv_activations :: "(int \<rightharpoonup> dtype) \<Rightarrow> int \<Rightarrow> pipeline \<Rightarrow> error + pipeline" where
  "recv_activations ID_TO_DTYPE buffer_id p =
     (case (case activation_recv_buf p of
              None \<Rightarrow>
                (case create_receive_buffer ID_TO_DTYPE (from_prev p) of
                   Inl e \<Rightarrow> Inl e
                 | Inr (buffers, w) \<Rightarrow>
                     Inr (p\<lparr>activation_recv_buf := Some buffers, from_prev := w\<rparr>))
            | Some _ \<Rightarrow> Inr p) of
        Inl e \<Rightarrow> Inl e
      | Inr p1 \<Rightarrow>
          (case activation_recv_buf p1 of
             None \<Rightarrow> Inl AssertionError
           | Some buffers \<Rightarrow>
               (case recv_payload_loop buffers (from_prev p1) of
                  Inl e \<Rightarrow> Inl e
                | Inr (filled, recvd, w) \<Rightarrow>
                    (case setitem (inputs p1) buffer_id (PTuple (map PTensor recvd)) of
                       Inl e \<Rightarrow> Inl e
                     | Inr ins \<Rightarrow>
                         Inr (p1\<lparr>activation_recv_buf := Some filled, from_prev := w,
                                 inputs := ins\<rparr>)))))"

subsection \<open>send_gradients and recv_gradients\<close>

text \<open>
  The loop of \<^verbatim>\<open>send_gradients\<close>. Reading \<^verbatim>\<open>requires_grad\<close> of an entry that is not a
  tensor raises \<^verbatim>\<open>AttributeError\<close>.
\<close>

fun send_grad_loop :: "pyval list \<Rightarrow> wire \<Rightarrow> error + wire" where
  "send_grad_loop [] w = Inr w"
| "send_grad_loop (v # vs) w =
     (case v of
        PTensor buffer \<Rightarrow>
          (if \<not> requires_grad buffer then
             (if grad buffer = None then send_grad_loop vs w else Inl AssertionError)
           else
             (case grad_of buffer of
                None \<Rightarrow> Inl AssertionError
              | Some g \<Rightarrow> send_grad_loop vs (send g w)))
      | _ \<Rightarrow> Inl AttributeError)"

definition send_gradients :: "int \<Rightarrow> pipeline \<Rightarrow> error + pipeline" where
  "send_gradients buffer_id p =
     (case getitem (inputs p) buffer_id of
        Inl e \<Rightarrow> Inl e
      | Inr ins \<Rightarrow>
          (case ins of
             PTuple vs \<Rightarrow>
               (case send_grad_loop vs (to_prev p) of
                  Inl e \<Rightarrow> Inl e
                | Inr w \<Rightarrow>
                    (case setitem (inputs p) buffer_id PNone of
                       Inl e \<Rightarrow> Inl e
                     | Inr ins' \<Rightarrow> Inr (p\<lparr>to_prev := w, inputs := ins'\<rparr>)))
           | _ \<Rightarrow> Inl AssertionError))"

fun create_gradients_loop :: "pyval list \<Rightarrow> tensor list \<Rightarrow> error + tensor list" where
  "create_gradients_loop [] buffers = Inr buffers"
| "create_gradients_loop (v # vs) buffers =
     (case v of
        PTensor t \<Rightarrow>
          create_gradients_loop vs (if requires_grad t then buffers @ [zeros_like t] else buffers)
      | _ \<Rightarrow> Inl AssertionError)"

definition create_gradients_buffer :: "pyval \<Rightarrow> error + tensor list" where
  "create_gradients_buffer tensors =
     (case tensors of
        PTuple vs \<Rightarrow> create_gradients_loop vs []
      | _ \<Rightarrow> Inl AssertionError)"

fun recv_grad_loop :: "tensor list \<Rightarrow> wire \<Rightarrow> error + (tensor list \<times> wire)" where
  "recv_grad_loop [] w = Inr ([], w)"
| "recv_grad_loop (buffer # rest) w =
     (case recv buffer w of
        Inl e \<Rightarrow> Inl e
      | Inr (filled, w1) \<Rightarrow>
          (case recv_grad_loop rest w1 of
             Inl e \<Rightarrow> Inl e
           | Inr (bufs, w2) \<Rightarrow> Inr (filled # bufs, w2)))"

definition recv_gradients :: "int \<Rightarrow> pipeline \<Rightarrow> error + pipeline" where
  "recv_gradients buffer_id p =
     (case getitem (outputs p) buffer_id of
        Inl e \<Rightarrow> Inl e
      | Inr outs \<Rightarrow>
          (case outs of
             PTuple vs \<Rightarrow>
               (case (case grad_recv_buf p of
                        None \<Rightarrow> create_gradients_buffer outs
                      | Some buffers \<Rightarrow> Inr buffers) of
                  Inl e \<Rightarrow> Inl e
                | Inr buffers \<Rightarrow>
                    (case recv_grad_loop buffers (from_next p) of
                       Inl e \<Rightarrow> Inl e
                     | Inr (filled, w) \<Rightarrow>
                         Inr (p\<lparr>grad_recv_buf := Some filled, from_next := w\<rparr>)))
           | _ \<Rightarrow> Inl AssertionError))"


subsection \<open>The metadata envelope, as the spec words it\<close>

text \<open>
  The wire format of the spec: per tensor the four rank-1 integer messages \<^verbatim>\<open>[ndims]\<close>,
  \<^verbatim>\<open>[dtype_code]\<close>, \<^verbatim>\<open>[dim_0, ..., dim_{ndims-1}]\<close> and \<^verbatim>\<open>[requires_grad]\<close>, the whole
  preceded by one \<^verbatim>\<open>[num_tensors]\<close> message. It is the reference the code's
  \<^verbatim>\<open>_send_activation_meta\<close> is compared with.
\<close>

definition tensor_meta_msgs :: "(dtype \<rightharpoonup> int) \<Rightarrow> tensor \<Rightarrow> wire" where
  "tensor_meta_msgs DTYPE_TO_ID t =
     [long_tensor [int (length (shape t))],
      long_tensor [the (DTYPE_TO_ID (dtype t))],
      long_tensor (map int (shape t)),
      long_tensor [if requires_grad t then 1 else 0]]"

definition metadata_envelope :: "(dtype \<rightharpoonup> int) \<Rightarrow> tensor list \<Rightarrow> wire" where
  "metadata_envelope DTYPE_TO_ID ts =
     long_tensor [int (length ts)] # concat (map (tensor_meta_msgs DTYPE_TO_ID) ts)"

text \<open>
  The buffer the receiver allocates for a tensor of the sender: zeros of the same shape,
  dtype and \<^verbatim>\<open>requires_grad\<close>, on the receiver's device.
\<close>

definition receive_buffer_for :: "tensor \<Rightarrow> tensor" where
  "receive_buffer_for t =
     \<lparr>shape = shape t, dtype = dtype t, device = CUDA, requires_grad = requires_grad t,
      data = replicate (prod_list (shape t)) 0, grad = None\<rparr>"

text \<open>
  The layout of a tensor: the three attributes the envelope carries.
\<close>

definition layout :: "tensor \<Rightarrow> nat list \<times> dtype \<times> bool" where
  "layout t = (shape t, dtype t, requires_grad t)"

text \<open>
  The tuple positions whose \<^verbatim>\<open>requires_grad\<close> flag is set, in tuple order: the filter
  both \<^verbatim>\<open>send_gradients\<close> and \<^verbatim>\<open>create_gradients_buffer\<close> apply.
\<close>

definition grad_positions :: "tensor list \<Rightarrow> nat list" where
  "grad_positions ts = filter (\<lambda>i. requires_grad (ts ! i)) [0 ..< length ts]"

section \<open>The stage runtime (PipelineExecution)\<close>

text \<open>
  \<^verbatim>\<open>_prepare_input\<close>: a mapping, a tuple and a list are rebuilt with every element
  prepared; a tensor is cloned, detached, moved to the device of the stage (cuda) and
  given \<^verbatim>\<open>requires_grad = is_floating_point()\<close>; anything else is returned as it is.
\<close>

fun prepare_input :: "pyval \<Rightarrow> pyval" where
  "prepare_input (PMapping kvs) = PMapping (map (map_prod id prepare_input) kvs)"
| "prepare_input (PTuple vs) = PTuple (map prepare_input vs)"
| "prepare_input (PList vs) = PList (map prepare_input vs)"
| "prepare_input (PTensor t) =
     PTensor ((clone_detach t)\<lparr>device := CUDA, requires_grad := is_floating_point t\<rparr>)"
| "prepare_input PNone = PNone"
| "prepare_input (POther x) = POther x"

text \<open>
  \<^verbatim>\<open>_prepare_inputs\<close> reads \<^verbatim>\<open>inputs.items()\<close>, which only a mapping has, and returns
  the tuple of the prepared values.
\<close>

definition prepare_inputs :: "pyval \<Rightarrow> error + pyval" where
  "prepare_inputs batch =
     (case batch of
        PMapping kvs \<Rightarrow> Inr (PTuple (map (\<lambda>(k, t). prepare_input t) kvs))
      | _ \<Rightarrow> Inl AttributeError)"

text \<open>
  \<^verbatim>\<open>is_first_stage\<close> and \<^verbatim>\<open>is_last_stage\<close> of the pipeline compare the index of the
  first and of the last layer of the stage; indexing an empty layer list raises.
\<close>

definition is_first_stage :: "pipeline \<Rightarrow> error + bool" where
  "is_first_stage p =
     (case model_layers p of [] \<Rightarrow> Inl IndexError | l # _ \<Rightarrow> Inr (l = 0))"

definition is_last_stage :: "pipeline \<Rightarrow> error + bool" where
  "is_last_stage p =
     (if model_layers p = [] then Inl IndexError
      else Inr (last (model_layers p) = total_num_layers p - 1))"

text \<open>
  \<^verbatim>\<open>load_microbatch\<close>. The iterator is the list of the batches still to come;
  \<^verbatim>\<open>next\<close> on an exhausted iterator raises \<^verbatim>\<open>StopIteration\<close>. The body has one
  branch, for the first stage.
\<close>

definition load_microbatch :: "int \<Rightarrow> pipeline \<Rightarrow> error + pipeline" where
  "load_microbatch buffer_id p =
     (case is_first_stage p of
        Inl e \<Rightarrow> Inl e
      | Inr first \<Rightarrow>
     (case (if first then Inr True else is_last_stage p) of
        Inl e \<Rightarrow> Inl e
      | Inr first_or_last \<Rightarrow>
          if \<not> first_or_last then Inl AssertionError
          else
     (case is_first_stage p of
        Inl e \<Rightarrow> Inl e
      | Inr first \<Rightarrow>
          if first then
            (case data_iterator p of
               [] \<Rightarrow> Inl StopIteration
             | batch # rest \<Rightarrow>
                 (case prepare_inputs batch of
                    Inl e \<Rightarrow> Inl e
                  | Inr prepared \<Rightarrow>
                      (case setitem (inputs p) buffer_id prepared of
                         Inl e \<Rightarrow> Inl e
                       | Inr ins \<Rightarrow> Inr (p\<lparr>data_iterator := rest, inputs := ins\<rparr>))))
          else Inr p)))"

section \<open>The execution engine (oobleck/engine/execution_engine.py)\<close>

text \<open>
  What is raised: an instance of \<^verbatim>\<open>Exception\<close> (or of a subclass), which the handler
  \<^verbatim>\<open>except Exception\<close> catches, or an instance of \<^verbatim>\<open>BaseException\<close> only
  (\<^verbatim>\<open>KeyboardInterrupt\<close>, \<^verbatim>\<open>SystemExit\<close>), which it does not. The string is
  \<^verbatim>\<open>str(e)\<close>.
\<close>

datatype raised = Exception string | BaseException string

text \<open>
  How a call ends: it returns a value, it raises, or it never returns.
\<close>

datatype 'a outcome = Returned 'a | Raised raised | Hangs

text \<open>
  The two attributes of the engine that \<^verbatim>\<open>execute\<close>, the watcher and
  \<^verbatim>\<open>reconfigure\<close> share; a thread is named by its number. The iterator's attribute
  \<^verbatim>\<open>invalidated\<close> is absent until the error handler sets it.
\<close>

record engine =
  need_reconfiguration :: bool
  notification_receiver_thread :: "nat option"

record dataloader_iterator =
  invalidated :: "bool option"

text \<open>\<^verbatim>\<open>ExecutionEngine.__init__\<close>.\<close>

definition new_engine :: engine where
  "new_engine = \<lparr>need_reconfiguration = False, notification_receiver_thread = None\<rparr>"

text \<open>
  \<^verbatim>\<open>notification_receive_func\<close>, the target of the watcher thread, from the moment
  \<^verbatim>\<open>recv_reconfiguration_notification\<close> returns: it sets the flag, then shuts the process
  group down; whether the shutdown returns or raises, the thread ends and the flag stays.
\<close>

definition notification_receive_func :: "engine \<Rightarrow> engine" where
  "notification_receive_func eng = eng\<lparr>need_reconfiguration := True\<rparr>"

text \<open>
  The loop \<^verbatim>\<open>while self.notification_receiver_thread.is_alive(): time.sleep(1)\<close>. The
  watcher runs beside the caller, so what \<^verbatim>\<open>is_alive()\<close> answers is given from
  outside: \<open>is_alive k\<close> is the answer to poll number \<open>k\<close> of the call. The loop
  returns at the first poll that finds the thread dead, and never when there is none.
\<close>

partial_function (option) wait_for_watcher :: "(nat \<Rightarrow> bool) \<Rightarrow> nat \<Rightarrow> unit option" where
  "wait_for_watcher is_alive k =
     (if is_alive k then wait_for_watcher is_alive (Suc k) else Some ())"

declare wait_for_watcher.simps [code]

text \<open>\<^verbatim>\<open>getattr(dataloader_iterator, "invalidated", False)\<close>.\<close>

definition getattr_invalidated :: "dataloader_iterator \<Rightarrow> bool" where
  "getattr_invalidated it = (case invalidated it of None \<Rightarrow> False | Some v \<Rightarrow> v)"

text \<open>
  The third block of \<^verbatim>\<open>execute\<close>: a new watcher thread is started when there is none or
  the last one is dead.
\<close>

definition start_watcher :: "(nat \<Rightarrow> bool) \<Rightarrow> engine \<Rightarrow> engine" where
  "start_watcher is_alive eng =
     (case notification_receiver_thread eng of
        None \<Rightarrow> eng\<lparr>notification_receiver_thread := Some 0\<rparr>
      | Some n \<Rightarrow>
          if \<not> is_alive 0 then eng\<lparr>notification_receiver_thread := Some (Suc n)\<rparr> else eng)"

text \<open>
  \<^verbatim>\<open>execute\<close>. \<open>run\<close> is how \<^verbatim>\<open>self.booster.execute_pipeline(...)\<close> ends: the value it
  returns or what it raises. The result is the outcome of the call with the engine and
  the iterator it leaves. Reading \<^verbatim>\<open>is_alive\<close> of a thread attribute that is still
  \<^verbatim>\<open>None\<close> raises \<^verbatim>\<open>AttributeError\<close>.
\<close>

definition execute ::
  "(nat \<Rightarrow> bool) \<Rightarrow> raised + 'r option \<Rightarrow> engine \<Rightarrow> dataloader_iterator \<Rightarrow>
     'r option outcome \<times> engine \<times> dataloader_iterator" where
  "execute is_alive run eng it =
     (if need_reconfiguration eng then
        (case notification_receiver_thread eng of
           None \<Rightarrow>
             (Raised (Exception
                (CHR 0x27 # ''NoneType'' @ CHR 0x27 # '' object has no attribute '' @
                 CHR 0x27 # ''is_alive'' @ [CHR 0x27])),
              eng, it)
         | Some n \<Rightarrow>
             (case wait_for_watcher is_alive 0 of
                None \<Rightarrow> (Hangs, eng, it)
              | Some u \<Rightarrow> (Returned None, eng, it)))
      else if getattr_invalidated it then
        (Raised (Exception
           ''The dataloader iterator has been invalidated. Please recreate the iterator before resuming training.''),
         eng, it)
      else
        (let eng1 = start_watcher is_alive eng in
         (case run of
            Inr result \<Rightarrow> (Returned result, eng1, it)
          | Inl (Exception msg) \<Rightarrow>
              if \<not> (prefix ''Default process group'' msg \<or> prefix ''Connection closed'' msg)
              then (Raised (Exception msg), eng1, it)
              else (Returned None, eng1, it\<lparr>invalidated := Some True\<rparr>)
          | Inl (BaseException msg) \<Rightarrow> (Raised (BaseException msg), eng1, it))))"

text \<open>
  \<^verbatim>\<open>reconfigure\<close>. \<open>plugin_reconfigure\<close> is how \<^verbatim>\<open>self.plugin.reconfigure(...)\<close> ends;
  the flag is cleared once it has returned.
\<close>

definition reconfigure :: "raised + 'a \<Rightarrow> engine \<Rightarrow> 'a outcome \<times> engine" where
  "reconfigure plugin_reconfigure eng =
     (case plugin_reconfigure of
        Inl e \<Rightarrow> (Raised e, eng)
      | Inr result \<Rightarrow> (Returned result, eng\<lparr>need_reconfiguration := False\<rparr>))"

section \<open>The constructor of OobleckPipeline\<close>

text \<open>
  The attributes of the object under construction, by name. An assignment
  \<^verbatim>\<open>self.x = v\<close> stores, a read of an attribute that was never stored raises
  \<^verbatim>\<open>AttributeError\<close> (the class defines no \<^verbatim>\<open>my_rank\<close> and no \<^verbatim>\<open>__getattr__\<close>), and an
  annotated target without a value, \<^verbatim>\<open>self.x: e\<close>, stores nothing: inside a function
  Python does not even evaluate the annotation.
\<close>

datatype attr = AInt int | AInts "int list"

type_synonym attrs = "string \<rightharpoonup> attr"

definition read_attr :: "attrs \<Rightarrow> string \<Rightarrow> error + attr" where
  "read_attr self name = (case self name of None \<Rightarrow> Inl AttributeError | Some v \<Rightarrow> Inr v)"

definition annotate_attr :: "attrs \<Rightarrow> string \<Rightarrow> attrs" where
  "annotate_attr self name = self"

text \<open>
  \<^verbatim>\<open>OobleckPipeline.__init__\<close> up to the read of \<^verbatim>\<open>self.my_rank\<close>; \<open>rest\<close> is the
  remainder of the constructor, from \<^verbatim>\<open>rank_index = ranks.index(self.my_rank)\<close> on, given
  the attributes and the rank read. \<open>num_stages\<close> is
  \<^verbatim>\<open>len(pipeline_template.get_stages())\<close>.
\<close>

definition pipeline_init ::
  "bool \<Rightarrow> nat \<Rightarrow> int \<Rightarrow> int list \<Rightarrow> (attrs \<Rightarrow> attr \<Rightarrow> error + 'p) \<Rightarrow> error + 'p" where
  "pipeline_init dist_is_initialized num_stages num_gpus_per_node ranks rest =
     (if \<not> dist_is_initialized then Inl AssertionError
      else if int (length ranks) \<noteq> int num_stages * num_gpus_per_node then Inl AssertionError
      else
        (let self = Map.empty(''ranks'' \<mapsto> AInts ranks);
             self = annotate_attr self ''my_rank''
         in (case read_attr self ''my_rank'' of
               Inl e \<Rightarrow> Inl e
             | Inr my_rank \<Rightarrow>
                 (case read_attr self ''ranks'' of
                    Inl e \<Rightarrow> Inl e
                  | Inr rs \<Rightarrow>
                      if (case (my_rank, rs) of
                            (AInt r, AInts xs) \<Rightarrow> r \<in> set xs
                          | _ \<Rightarrow> False)
                      then rest self my_rank
                      else Inl AssertionError))))"

section \<open>Example values\<close>

text \<open>
  A two-entry dtype table with its inverse, a float tensor that requires a gradient and
  carries one, an integer tensor that does not, and a pipeline of two buffers whose
  first output and input slots hold the pair.
\<close>

definition example_DTYPE_TO_ID :: "dtype \<rightharpoonup> int" where
  "example_DTYPE_TO_ID = [Float32 \<mapsto> 0, Int64 \<mapsto> 1]"

definition example_ID_TO_DTYPE :: "int \<rightharpoonup> dtype" where
  "example_ID_TO_DTYPE = [0 \<mapsto> Float32, 1 \<mapsto> Int64]"

definition example_float :: tensor where
  "example_float =
     \<lparr>shape = [2, 3], dtype = Float32, device = CUDA, requires_grad = True,
      data = [1, 2, 3, 4, 5, 6], grad = Some [0, 0, 1, 0, 0, 1]\<rparr>"

definition example_long :: tensor where
  "example_long =
     \<lparr>shape = [], dtype = Int64, device = CUDA, requires_grad = False,
      data = [7], grad = None\<rparr>"

definition example_pipeline :: pipeline where
  "example_pipeline =
     \<lparr>inputs = [PTuple [PTensor example_float, PTensor example_long], PNone],
      labels = [PNone, PNone],
      outputs = [PTuple [PTensor example_float, PTensor example_long], PNone],
      sent_activation_meta = False, activation_recv_buf = None, grad_recv_buf = None,
      to_next = [], to_prev = [], from_prev = [], from_next = [],
      data_iterator = [], model_layers = [2, 3], total_num_layers = 4\<rparr>"

text \<open>
  The example pipeline owns layers 2 and 3 of 4: it is the last stage and not the first.
  Here it has a batch waiting in its iterator.
\<close>

definition example_last_stage :: pipeline where
  "example_last_stage =
     example_pipeline\<lparr>data_iterator := [PMapping [(''labels'', PTensor example_long)]]\<rparr>"

text \<open>The same pipeline as the first stage of 4 layers.\<close>

definition example_first_stage :: pipeline where
  "example_first_stage = example_last_stage\<lparr>model_layers := [0, 1]\<rparr>"

section \<open>Properties of the schedule\<close>

lemma step_to_micro_batch_closed:
  "step_to_micro_batch sch t =
     (if (t - stage_id sch) mod 2 = 0 then ((t - stage_id sch) div 2, True)
      else ((t + stage_id sch + 1) div 2 - stages sch, False))"
proof -
  define a where "a = stage_id sch div 2"
  define b where "b = t div 2"
  have a: "stage_id sch = 2 * a \<or> stage_id sch = 2 * a + 1"
    unfolding a_def by presburger
  have b: "t = 2 * b \<or> t = 2 * b + 1"
    unfolding b_def by presburger
  have e1: "(2 * b - 2 * a) div 2 = b - a" "(2 * b + 1 - (2 * a + 1)) div 2 = b - a"
    "(2 * b + (2 * a + 1) + 1) div 2 = b + a + 1" "(2 * b + 1 + 2 * a + 1) div 2 = b + a + 1"
    "(2 * a + 1 + 1) div 2 = a + 1"
    for a b :: int by simp_all
  have e2: "(2 * b - 2 * a) mod 2 = 0" "(2 * b + 1 - (2 * a + 1)) mod 2 = 0"
    "(2 * b - (2 * a + 1)) mod 2 = 1" "(2 * b + 1 - 2 * a) mod 2 = 1"
    for a b :: int by presburger+
  from a b show ?thesis
    unfolding step_to_micro_batch_def even_step_forward_id_def odd_step_forward_id_def
      even_step_backward_id_def odd_step_backward_id_def
    by (elim disjE) (simp_all add: e1 e2)
qed

lemma length_steps_loop: "length (steps_loop sch p ts) = length ts"
  by (induction ts arbitrary: p) simp_all

lemma nth_steps_loop:
  "k < length ts \<Longrightarrow>
   steps_loop sch p ts ! k =
     step_cmds sch (if k = 0 then p else fst (step_to_micro_batch sch (int (ts ! (k - 1)))))
       (int (ts ! k))"
proof (induction ts arbitrary: p k)
  case Nil
  then show ?case by simp
next
  case (Cons t ts)
  show ?case
  proof (cases k)
    case 0
    then show ?thesis by simp
  next
    case (Suc j)
    with Cons.prems have "j < length ts" by simp
    from Cons.IH[OF this] Suc show ?thesis
      by (cases j) simp_all
  qed
qed

lemma filter_fwd_step_cmds:
  "filter is_ForwardPass (step_cmds sch p t) =
     (if fwd_valid sch t then [ForwardPass (buffer_idx sch (fst (step_to_micro_batch sch t)))]
      else [])"
  by (simp add: step_cmds_def fwd_valid_def Let_def split: prod.splits)

lemma filter_bwd_step_cmds:
  "filter is_BackwardPass (step_cmds sch p t) =
     (if bwd_valid sch t then [BackwardPass (buffer_idx sch (fst (step_to_micro_batch sch t)))]
      else [])"
  by (simp add: step_cmds_def bwd_valid_def Let_def split: prod.splits)

lemma count_fwd_steps_loop:
  "length (filter is_ForwardPass (concat (steps_loop sch p ts))) =
   length (filter (\<lambda>t. fwd_valid sch (int t)) ts)"
  by (induction ts arbitrary: p) (simp_all add: filter_fwd_step_cmds)

lemma count_bwd_steps_loop:
  "length (filter is_BackwardPass (concat (steps_loop sch p ts))) =
   length (filter (\<lambda>t. bwd_valid sch (int t)) ts)"
  by (induction ts arbitrary: p) (simp_all add: filter_bwd_step_cmds)

lemma length_filter_upt_card:
  "length (filter P [0..<n]) = card {t. t < n \<and> P t}"
proof -
  have "card {t. t < n \<and> P t} = card (set (filter P [0..<n]))"
    by (rule arg_cong[where f = card]) auto
  also have "\<dots> = length (filter P [0..<n])"
    by (rule distinct_card) simp
  finally show ?thesis by simp
qed

lemma forward_step:
  "step_to_micro_batch sch (2 * i + stage_id sch) = (i, True)"
  by (simp add: step_to_micro_batch_closed)

lemma backward_step:
  "step_to_micro_batch sch (2 * i + 2 * stages sch - 1 - stage_id sch) = (i, False)"
proof -
  have "(2 * i + 2 * stages sch - 1 - stage_id sch - stage_id sch) mod 2 \<noteq> 0"
    by presburger
  moreover have "(2 * i + 2 * stages sch - 1 - stage_id sch + stage_id sch + 1) div 2 - stages sch = i"
    by simp
  ultimately show ?thesis
    by (simp only: step_to_micro_batch_closed if_False)
qed

lemma step_of_micro_batch:
  assumes "fst (step_to_micro_batch sch t) = i"
  shows "t = 2 * i + stage_id sch \<or> t = 2 * i + 2 * stages sch - 1 - stage_id sch"
proof (cases "(t - stage_id sch) mod 2 = 0")
  case True
  with assms have "(t - stage_id sch) div 2 = i"
    by (simp add: step_to_micro_batch_closed)
  with True show ?thesis by presburger
next
  case False
  with assms have "(t + stage_id sch + 1) div 2 - stages sch = i"
    by (simp add: step_to_micro_batch_closed)
  moreover from False have "(t + stage_id sch + 1) mod 2 = 0" by presburger
  ultimately show ?thesis by presburger
qed

lemma fwd_valid_iff:
  "fwd_valid sch t \<longleftrightarrow>
     (\<exists>i. 0 \<le> i \<and> i < micro_batches sch \<and> t = 2 * i + stage_id sch)"
proof
  assume fv: "fwd_valid sch t"
  define i where "i = fst (step_to_micro_batch sch t)"
  from fv have v: "0 \<le> i" "i < micro_batches sch" and f: "snd (step_to_micro_batch sch t)"
    by (simp_all add: fwd_valid_def valid_micro_batch_def i_def)
  from step_of_micro_batch[of sch t i] have
    "t = 2 * i + stage_id sch \<or> t = 2 * i + 2 * stages sch - 1 - stage_id sch"
    by (simp add: i_def)
  with f backward_step[of sch i] have "t = 2 * i + stage_id sch" by auto
  with v show "\<exists>i. 0 \<le> i \<and> i < micro_batches sch \<and> t = 2 * i + stage_id sch" by blast
next
  assume "\<exists>i. 0 \<le> i \<and> i < micro_batches sch \<and> t = 2 * i + stage_id sch"
  then show "fwd_valid sch t"
    by (auto simp: fwd_valid_def valid_micro_batch_def forward_step)
qed

lemma bwd_valid_iff:
  "bwd_valid sch t \<longleftrightarrow>
     (\<exists>i. 0 \<le> i \<and> i < micro_batches sch \<and> t = 2 * i + 2 * stages sch - 1 - stage_id sch)"
proof
  assume fv: "bwd_valid sch t"
  define i where "i = fst (step_to_micro_batch sch t)"
  from fv have v: "0 \<le> i" "i < micro_batches sch" and f: "\<not> snd (step_to_micro_batch sch t)"
    by (simp_all add: bwd_valid_def valid_micro_batch_def i_def)
  from step_of_micro_batch[of sch t i] have
    "t = 2 * i + stage_id sch \<or> t = 2 * i + 2 * stages sch - 1 - stage_id sch"
    by (simp add: i_def)
  with f forward_step[of sch i] have "t = 2 * i + 2 * stages sch - 1 - stage_id sch" by auto
  with v show "\<exists>i. 0 \<le> i \<and> i < micro_batches sch \<and> t = 2 * i + 2 * stages sch - 1 - stage_id sch"
    by blast
next
  assume "\<exists>i. 0 \<le> i \<and> i < micro_batches sch \<and> t = 2 * i + 2 * stages sch - 1 - stage_id sch"
  then show "bwd_valid sch t"
    by (auto simp: bwd_valid_def valid_micro_batch_def backward_step)
qed

lemma card_affine_steps:
  assumes "0 \<le> c" "0 \<le> m" "\<And>i. 0 \<le> i \<Longrightarrow> i < m \<Longrightarrow> 2 * i + c < int n"
  shows "card {t. t < n \<and> (\<exists>i. 0 \<le> i \<and> i < m \<and> int t = 2 * i + c)} = nat m"
proof -
  let ?f = "\<lambda>k::nat. nat (2 * int k + c)"
  have "{t. t < n \<and> (\<exists>i. 0 \<le> i \<and> i < m \<and> int t = 2 * i + c)} = ?f ` {..<nat m}"
  proof (intro set_eqI iffI)
    fix t assume "t \<in> {t. t < n \<and> (\<exists>i. 0 \<le> i \<and> i < m \<and> int t = 2 * i + c)}"
    then obtain i where i: "0 \<le> i" "i < m" "int t = 2 * i + c" by blast
    then have "t = ?f (nat i)" "nat i \<in> {..<nat m}" by simp_all
    then show "t \<in> ?f ` {..<nat m}" by blast
  next
    fix t assume "t \<in> ?f ` {..<nat m}"
    then obtain k where k: "k < nat m" "t = ?f k" by blast
    with assms(1) have e: "int t = 2 * int k + c" by simp
    from k have km: "0 \<le> int k" "int k < m" by simp_all
    from assms(3)[OF km] e have "t < n" by simp
    with e km show "t \<in> {t. t < n \<and> (\<exists>i. 0 \<le> i \<and> i < m \<and> int t = 2 * i + c)}"
      by blast
  qed
  moreover have "inj_on ?f {..<nat m}"
    using assms(1) by (auto simp: inj_on_def)
  ultimately show ?thesis
    by (simp add: card_image)
qed

lemma count_forward:
  assumes "1 \<le> micro_batches sch" "1 \<le> stages sch" "0 \<le> stage_id sch"
    "stage_id sch < stages sch"
  shows "int (length (filter is_ForwardPass (concat (steps sch)))) = micro_batches sch"
proof -
  have "card {t. t < nat (total_steps sch) \<and>
          (\<exists>i. 0 \<le> i \<and> i < micro_batches sch \<and> int t = 2 * i + stage_id sch)}
        = nat (micro_batches sch)"
    using assms by (intro card_affine_steps) (simp_all add: total_steps_def)
  then show ?thesis
    using assms(1)
    by (simp add: steps_def count_fwd_steps_loop length_filter_upt_card fwd_valid_iff)
qed

lemma count_backward:
  assumes "1 \<le> micro_batches sch" "1 \<le> stages sch" "0 \<le> stage_id sch"
    "stage_id sch < stages sch"
  shows "int (length (filter is_BackwardPass (concat (steps sch)))) = micro_batches sch"
proof -
  have "card {t. t < nat (total_steps sch) \<and>
          (\<exists>i. 0 \<le> i \<and> i < micro_batches sch \<and>
               int t = 2 * i + (2 * stages sch - 1 - stage_id sch))}
        = nat (micro_batches sch)"
    using assms by (intro card_affine_steps) (simp_all add: total_steps_def)
  moreover have "2 * i + (2 * stages sch - 1 - stage_id sch)
      = 2 * i + 2 * stages sch - 1 - stage_id sch" for i
    by simp
  ultimately show ?thesis
    using assms(1)
    by (simp add: steps_def count_bwd_steps_loop length_filter_upt_card bwd_valid_iff)
qed

lemma length_steps: "length (steps sch) = nat (total_steps sch)"
  by (simp add: steps_def length_steps_loop)

lemma nth_steps:
  "k < nat (total_steps sch) \<Longrightarrow>
   steps sch ! k =
     step_cmds sch (if k = 0 then - 1 else fst (step_to_micro_batch sch (int k - 1))) (int k)"
  by (simp add: steps_def nth_steps_loop of_nat_diff)

lemma forward_in_step_cmds:
  "step_to_micro_batch sch t = (i, True) \<Longrightarrow> valid_micro_batch sch i \<Longrightarrow>
   ForwardPass (buffer_idx sch i) \<in> set (step_cmds sch p t)"
  by (simp add: step_cmds_def Let_def)

lemma backward_in_step_cmds:
  "step_to_micro_batch sch t = (i, False) \<Longrightarrow> valid_micro_batch sch i \<Longrightarrow>
   BackwardPass (buffer_idx sch i) \<in> set (step_cmds sch p t)"
  by (simp add: step_cmds_def Let_def)

lemma forward_before_backward:
  assumes "1 \<le> micro_batches sch" "1 \<le> stages sch" "0 \<le> stage_id sch"
    "stage_id sch < stages sch" "0 \<le> i" "i < micro_batches sch"
  shows "\<exists>tf tb. tf < tb \<and> tb < length (steps sch) \<and>
           step_to_micro_batch sch (int tf) = (i, True) \<and>
           ForwardPass (buffer_idx sch i) \<in> set (steps sch ! tf) \<and>
           step_to_micro_batch sch (int tb) = (i, False) \<and>
           BackwardPass (buffer_idx sch i) \<in> set (steps sch ! tb) \<and>
           (\<forall>t. fst (step_to_micro_batch sch (int t)) = i \<longrightarrow> t = tf \<or> t = tb)"
proof -
  define tf where "tf = nat (2 * i + stage_id sch)"
  define tb where "tb = nat (2 * i + 2 * stages sch - 1 - stage_id sch)"
  have itf: "int tf = 2 * i + stage_id sch"
    using assms by (simp add: tf_def)
  have itb: "int tb = 2 * i + 2 * stages sch - 1 - stage_id sch"
    using assms by (simp add: tb_def)
  have lt: "tf < tb" using assms itf itb by linarith
  have tbn: "tb < nat (total_steps sch)"
    using assms itb by (simp add: total_steps_def)
  then have tfn: "tf < nat (total_steps sch)" using lt by simp
  have v: "valid_micro_batch sch i" using assms by (simp add: valid_micro_batch_def)
  have sf: "step_to_micro_batch sch (int tf) = (i, True)"
    by (simp only: itf forward_step)
  have sb: "step_to_micro_batch sch (int tb) = (i, False)"
    by (simp only: itb backward_step)
  have f: "ForwardPass (buffer_idx sch i) \<in> set (steps sch ! tf)"
    by (simp only: nth_steps[OF tfn] forward_in_step_cmds[OF sf v])
  have b: "BackwardPass (buffer_idx sch i) \<in> set (steps sch ! tb)"
    by (simp only: nth_steps[OF tbn] backward_in_step_cmds[OF sb v])
  have u: "t = tf \<or> t = tb" if "fst (step_to_micro_batch sch (int t)) = i" for t
    using step_of_micro_batch[OF that] itf itb by linarith
  from lt tbn sf sb f b u show ?thesis
    unfolding length_steps by blast
qed

lemma set_map_filter_Some:
  "set (List.map_filter f xs) = {b. \<exists>x \<in> set xs. f x = Some b}"
  by (induction xs) (auto simp: map_filter_simps split: option.splits)

lemma step_cmds_first_stage:
  "stage_id sch = 0 \<Longrightarrow> c \<in> set (step_cmds sch p t) \<Longrightarrow>
   \<not> is_RecvActivation c \<and> \<not> is_SendGrad c"
  by (auto simp: step_cmds_def Let_def valid_stage_def prev_stage_def
      split: prod.splits if_splits)

lemma step_cmds_last_stage:
  "stage_id sch = stages sch - 1 \<Longrightarrow> c \<in> set (step_cmds sch p t) \<Longrightarrow>
   \<not> is_SendActivation c \<and> \<not> is_RecvGrad c"
  by (auto simp: step_cmds_def Let_def valid_stage_def next_stage_def
      split: prod.splits if_splits)

lemma in_steps_loop:
  "c \<in> set (concat (steps_loop sch p ts)) \<Longrightarrow> \<exists>q t. c \<in> set (step_cmds sch q t)"
  by (induction ts arbitrary: p) auto

lemma step_cmds_buffer_id:
  "c \<in> set (step_cmds sch p t) \<Longrightarrow>
   \<exists>i. valid_micro_batch sch i \<and> buffer_id_of c = Some (buffer_idx sch i)"
  by (auto simp: step_cmds_def Let_def split: prod.splits if_splits)

lemma image_mod_range:
  assumes "0 < n" "0 \<le> m"
  shows "(\<lambda>i::int. i mod n) ` {0..<m} = {0..<min m n}"
proof (intro set_eqI iffI)
  fix b assume "b \<in> (\<lambda>i::int. i mod n) ` {0..<m}"
  then obtain i where i: "0 \<le> i" "i < m" "b = i mod n" by auto
  from assms(1) have "0 \<le> i mod n" "i mod n < n" by simp_all
  moreover from i(1) assms(1) have "i mod n \<le> i" by (simp add: zmod_le_nonneg_dividend)
  ultimately show "b \<in> {0..<min m n}" using i by simp
next
  fix b assume "b \<in> {0..<min m n}"
  then have b: "0 \<le> b" "b < m" "b < n" by simp_all
  then have "b mod n = b" by simp
  with b show "b \<in> (\<lambda>i::int. i mod n) ` {0..<m}" by force
qed

lemma set_distinct_buffer_ids:
  assumes "1 \<le> micro_batches sch" "1 \<le> stages sch" "0 \<le> stage_id sch"
    "stage_id sch < stages sch"
  shows "set (distinct_buffer_ids (steps sch)) = buffer_idx sch ` {0..<micro_batches sch}"
proof (intro set_eqI iffI)
  fix b assume "b \<in> set (distinct_buffer_ids (steps sch))"
  then obtain c where c: "c \<in> set (concat (steps sch))" "buffer_id_of c = Some b"
    by (auto simp: distinct_buffer_ids_def set_map_filter_Some)
  from c(1) obtain q t where "c \<in> set (step_cmds sch q t)"
    unfolding steps_def by (blast dest: in_steps_loop)
  from step_cmds_buffer_id[OF this] c(2)
  show "b \<in> buffer_idx sch ` {0..<micro_batches sch}"
    by (auto simp: valid_micro_batch_def)
next
  fix b assume "b \<in> buffer_idx sch ` {0..<micro_batches sch}"
  then obtain i where i: "0 \<le> i" "i < micro_batches sch" "b = buffer_idx sch i" by auto
  from forward_before_backward[OF assms i(1,2)] obtain tf tb where
    "tf < tb" "tb < length (steps sch)" "ForwardPass (buffer_idx sch i) \<in> set (steps sch ! tf)"
    by blast
  then have "tf < length (steps sch)" "ForwardPass (buffer_idx sch i) \<in> set (steps sch ! tf)"
    by simp_all
  then have "ForwardPass b \<in> set (concat (steps sch))"
    using i(3) nth_mem[of tf "steps sch"] by auto
  then show "b \<in> set (distinct_buffer_ids (steps sch))"
    by (force simp: distinct_buffer_ids_def set_map_filter_Some)
qed

lemma count_distinct_buffer_ids:
  assumes "1 \<le> micro_batches sch" "1 \<le> stages sch" "0 \<le> stage_id sch"
    "stage_id sch < stages sch"
  shows "int (length (distinct_buffer_ids (steps sch))) =
           min (micro_batches sch) (num_pipe_buffers sch)"
proof -
  have n: "0 < num_pipe_buffers sch" by (simp add: num_pipe_buffers_def)
  have "length (distinct_buffer_ids (steps sch)) = card (set (distinct_buffer_ids (steps sch)))"
    by (simp add: distinct_buffer_ids_def length_remdups_card_conv)
  also have "\<dots> = card ((\<lambda>i. i mod num_pipe_buffers sch) ` {0..<micro_batches sch})"
    by (simp add: set_distinct_buffer_ids[OF assms] buffer_idx_def[abs_def])
  also have "\<dots> = card {0..<min (micro_batches sch) (num_pipe_buffers sch)}"
    using assms(1) n by (subst image_mod_range) simp_all
  finally show ?thesis using assms(1) n by simp
qed

text \<open>
  Claim C1. For \<open>M \<ge> 1\<close>, \<open>S \<ge> 1\<close> and a stage \<open>0 \<le> s < S\<close>, \<^verbatim>\<open>steps\<close> yields
  \<open>2 * (M + S - 1)\<close> step groups holding exactly \<open>M\<close> forward and \<open>M\<close> backward
  passes, and every microbatch \<open>i\<close> has one forward step \<open>tf\<close> and one backward step
  \<open>tb\<close> with \<open>tf < tb\<close>: the forward pass of \<open>i\<close> is in group \<open>tf\<close>, its backward
  pass in group \<open>tb\<close>, and no other step works on \<open>i\<close>.
\<close>

theorem steps_length_counts_order:
  assumes "1 \<le> micro_batches sch" "1 \<le> stages sch" "0 \<le> stage_id sch"
    "stage_id sch < stages sch"
  shows "int (length (steps sch)) = 2 * (micro_batches sch + stages sch - 1) \<and>
         int (length (filter is_ForwardPass (concat (steps sch)))) = micro_batches sch \<and>
         int (length (filter is_BackwardPass (concat (steps sch)))) = micro_batches sch \<and>
         (\<forall>i. 0 \<le> i \<and> i < micro_batches sch \<longrightarrow>
            (\<exists>tf tb. tf < tb \<and> tb < length (steps sch) \<and>
               step_to_micro_batch sch (int tf) = (i, True) \<and>
               ForwardPass (buffer_idx sch i) \<in> set (steps sch ! tf) \<and>
               step_to_micro_batch sch (int tb) = (i, False) \<and>
               BackwardPass (buffer_idx sch i) \<in> set (steps sch ! tb) \<and>
               (\<forall>t. fst (step_to_micro_batch sch (int t)) = i \<longrightarrow> t = tf \<or> t = tb)))"
proof (intro conjI allI impI)
  show "int (length (steps sch)) = 2 * (micro_batches sch + stages sch - 1)"
    using assms by (simp add: length_steps total_steps_def)
  show "int (length (filter is_ForwardPass (concat (steps sch)))) = micro_batches sch"
    by (rule count_forward[OF assms])
  show "int (length (filter is_BackwardPass (concat (steps sch)))) = micro_batches sch"
    by (rule count_backward[OF assms])
next
  fix i assume "0 \<le> i \<and> i < micro_batches sch"
  then show "\<exists>tf tb. tf < tb \<and> tb < length (steps sch) \<and>
               step_to_micro_batch sch (int tf) = (i, True) \<and>
               ForwardPass (buffer_idx sch i) \<in> set (steps sch ! tf) \<and>
               step_to_micro_batch sch (int tb) = (i, False) \<and>
               BackwardPass (buffer_idx sch i) \<in> set (steps sch ! tb) \<and>
               (\<forall>t. fst (step_to_micro_batch sch (int t)) = i \<longrightarrow> t = tf \<or> t = tb)"
    using forward_before_backward[OF assms, of i] by blast
qed

theorem steps_length_counts_order_witness:
  "int (length (steps \<lparr>micro_batches = 4, stages = 2, stage_id = 0\<rparr>)) = 10 \<and>
   int (length (filter is_ForwardPass
     (concat (steps \<lparr>micro_batches = 4, stages = 2, stage_id = 0\<rparr>)))) = 4 \<and>
   int (length (filter is_BackwardPass
     (concat (steps \<lparr>micro_batches = 4, stages = 2, stage_id = 0\<rparr>)))) = 4"
  using steps_length_counts_order[of "\<lparr>micro_batches = 4, stages = 2, stage_id = 0\<rparr>"]
  by simp

text \<open>
  Claim C2. The first stage never receives an activation or sends a gradient, and the
  last stage never sends an activation or receives a gradient.
\<close>

theorem steps_respect_pipeline_ends:
  assumes "1 \<le> micro_batches sch" "1 \<le> stages sch" "0 \<le> stage_id sch"
    "stage_id sch < stages sch"
  shows "(stage_id sch = 0 \<longrightarrow>
           (\<forall>c \<in> set (concat (steps sch)). \<not> is_RecvActivation c \<and> \<not> is_SendGrad c)) \<and>
         (stage_id sch = stages sch - 1 \<longrightarrow>
           (\<forall>c \<in> set (concat (steps sch)). \<not> is_SendActivation c \<and> \<not> is_RecvGrad c))"
proof (intro conjI impI ballI)
  fix c assume s: "stage_id sch = 0" and c: "c \<in> set (concat (steps sch))"
  from c obtain q t where "c \<in> set (step_cmds sch q t)"
    unfolding steps_def by (blast dest: in_steps_loop)
  from step_cmds_first_stage[OF s this]
  show "\<not> is_RecvActivation c" "\<not> is_SendGrad c" by simp_all
next
  fix c assume s: "stage_id sch = stages sch - 1" and c: "c \<in> set (concat (steps sch))"
  from c obtain q t where "c \<in> set (step_cmds sch q t)"
    unfolding steps_def by (blast dest: in_steps_loop)
  from step_cmds_last_stage[OF s this]
  show "\<not> is_SendActivation c" "\<not> is_RecvGrad c" by simp_all
qed

theorem steps_respect_pipeline_ends_witness:
  "list_all (\<lambda>c. \<not> is_RecvActivation c \<and> \<not> is_SendGrad c)
     (concat (steps \<lparr>micro_batches = 4, stages = 2, stage_id = 0\<rparr>)) \<and>
   list_all (\<lambda>c. \<not> is_SendActivation c \<and> \<not> is_RecvGrad c)
     (concat (steps \<lparr>micro_batches = 4, stages = 2, stage_id = 1\<rparr>))"
proof -
  let ?a = "\<lparr>micro_batches = 4, stages = 2, stage_id = 0\<rparr>"
  let ?b = "\<lparr>micro_batches = 4, stages = 2, stage_id = 1\<rparr>"
  have ha: "1 \<le> micro_batches ?a" "1 \<le> stages ?a" "0 \<le> stage_id ?a"
    "stage_id ?a < stages ?a" by simp_all
  have hb: "1 \<le> micro_batches ?b" "1 \<le> stages ?b" "0 \<le> stage_id ?b"
    "stage_id ?b < stages ?b" by simp_all
  have fa: "stage_id ?a = 0" by simp
  have fb: "stage_id ?b = stages ?b - 1" by simp
  from steps_respect_pipeline_ends[OF ha] fa
  have a: "\<forall>c \<in> set (concat (steps ?a)). \<not> is_RecvActivation c \<and> \<not> is_SendGrad c"
    by blast
  from steps_respect_pipeline_ends[OF hb] fb
  have b: "\<forall>c \<in> set (concat (steps ?b)). \<not> is_SendActivation c \<and> \<not> is_RecvGrad c"
    by blast
  from a b show ?thesis unfolding list_all_iff by (rule conjI)
qed

text \<open>
  Claim C8 as stated fails with a single microbatch: only buffer 0 is used, while
  \<^verbatim>\<open>num_pipe_buffers\<close> is never below 2.
\<close>

theorem distinct_buffer_ids_single_micro_batch:
  "length (distinct_buffer_ids (steps \<lparr>micro_batches = 1, stages = 1, stage_id = 0\<rparr>)) = 1 \<and>
   num_pipe_buffers \<lparr>micro_batches = 1, stages = 1, stage_id = 0\<rparr> = 2 \<and>
   int (length (distinct_buffer_ids (steps \<lparr>micro_batches = 1, stages = 1, stage_id = 0\<rparr>)))
     \<noteq> max 2 (min (1 - 0) 1)"
  by code_simp

text \<open>
  Claim C8, amended. The number of distinct buffer ids that \<^verbatim>\<open>steps\<close> uses is 1 when
  there is one microbatch and \<open>max 2 (min (S - s) M)\<close>, the value of
  \<^verbatim>\<open>num_pipe_buffers\<close>, when there are at least two.
\<close>

theorem distinct_buffer_ids_count:
  assumes "1 \<le> micro_batches sch" "1 \<le> stages sch" "0 \<le> stage_id sch"
    "stage_id sch < stages sch"
  shows "int (length (distinct_buffer_ids (steps sch))) =
           (if micro_batches sch = 1 then 1
            else max 2 (min (stages sch - stage_id sch) (micro_batches sch))) \<and>
         (2 \<le> micro_batches sch \<longrightarrow>
            int (length (distinct_buffer_ids (steps sch))) = num_pipe_buffers sch)"
  using assms count_distinct_buffer_ids[OF assms]
  by (auto simp: num_pipe_buffers_def Let_def)

theorem distinct_buffer_ids_count_witness:
  "int (length (distinct_buffer_ids (steps \<lparr>micro_batches = 3, stages = 3, stage_id = 0\<rparr>))) = 3 \<and>
   num_pipe_buffers \<lparr>micro_batches = 3, stages = 3, stage_id = 0\<rparr> = 3"
  using distinct_buffer_ids_count[of "\<lparr>micro_batches = 3, stages = 3, stage_id = 0\<rparr>"]
  by (simp add: num_pipe_buffers_def)

section \<open>Properties of the transport\<close>

lemma send_meta_loop_tensors:
  "\<forall>t \<in> set ts. DTYPE_TO_ID (dtype t) \<noteq> None \<Longrightarrow>
   send_meta_loop DTYPE_TO_ID (map PTensor ts) w =
     Inr (w @ concat (map (tensor_meta_msgs DTYPE_TO_ID) ts))"
proof (induction ts arbitrary: w)
  case Nil
  then show ?case by simp
next
  case (Cons t ts)
  from Cons.prems obtain c where c: "DTYPE_TO_ID (dtype t) = Some c" by auto
  from Cons.prems have rest: "\<forall>t \<in> set ts. DTYPE_TO_ID (dtype t) \<noteq> None" by simp
  show ?case
    by (simp add: send_tensor_meta_def c Let_def send_def tensor_meta_msgs_def Cons.IH[OF rest])
qed

lemma send_activation_meta_tensors:
  "\<forall>t \<in> set ts. DTYPE_TO_ID (dtype t) \<noteq> None \<Longrightarrow>
   send_activation_meta DTYPE_TO_ID (PTuple (map PTensor ts)) w =
     Inr (w @ metadata_envelope DTYPE_TO_ID ts)"
  by (simp add: send_activation_meta_def send_meta_loop_tensors send_def metadata_envelope_def)

lemma send_payload_loop_tensors:
  "send_payload_loop (map PTensor ts) w = Inr (w @ ts)"
  by (induction ts arbitrary: w) (simp_all add: send_def)

lemma send_activations_first:
  assumes "getitem (outputs p) b = Inr (PTuple (map PTensor ts))"
    and "\<not> sent_activation_meta p"
    and "\<forall>t \<in> set ts. DTYPE_TO_ID (dtype t) \<noteq> None"
  shows "send_activations DTYPE_TO_ID b p =
          Inr (p\<lparr>to_next := to_next p @ metadata_envelope DTYPE_TO_ID ts @ ts,
                 sent_activation_meta := True\<rparr>)"
  using assms
  by (simp add: send_activations_def send_activation_meta_tensors send_payload_loop_tensors)


lemma recv_long_scalar:
  "recv (long_tensor [0]) (long_tensor [x] # w) = Inr (long_tensor [x], w)"
  by (simp add: recv_def long_tensor_def)

lemma item_long_scalar: "item (long_tensor [x]) = Inr x"
  by (simp add: item_def long_tensor_def)

lemma recv_long_shape:
  "recv (long_tensor (replicate (length xs) 1)) (long_tensor xs # w) = Inr (long_tensor xs, w)"
  by (simp add: recv_def long_tensor_def)

lemma zeros_of_shape:
  "rg \<longrightarrow> dt \<in> {Float16, BFloat16, Float32, Float64} \<Longrightarrow>
   zeros (map int sh) dt rg =
     Inr \<lparr>shape = sh, dtype = dt, device = CUDA, requires_grad = rg,
          data = replicate (prod_list sh) 0, grad = None\<rparr>"
  by (auto simp: zeros_def comp_def)

lemma recv_tensor_meta_msgs:
  assumes "DTYPE_TO_ID (dtype t) = Some c" "ID_TO_DTYPE c = Some (dtype t)"
    and "requires_grad t \<longrightarrow> is_floating_point t"
  shows "recv_tensor_meta ID_TO_DTYPE (tensor_meta_msgs DTYPE_TO_ID t @ rest) =
           Inr (receive_buffer_for t, rest)"
proof -
  have z: "zeros (map int (shape t)) (dtype t) (requires_grad t) = Inr (receive_buffer_for t)"
    using assms(3) by (simp add: zeros_of_shape is_floating_point_def receive_buffer_for_def)
  have d: "data (long_tensor xs) = xs" for xs by (simp add: long_tensor_def)
  have l: "recv (long_tensor (replicate (length (shape t)) 1)) (long_tensor (map int (shape t)) # w)
      = Inr (long_tensor (map int (shape t)), w)" for w
    using recv_long_shape[of "map int (shape t)" w] by simp
  show ?thesis
    using z
    by (cases "requires_grad t")
      (simp_all add: recv_tensor_meta_def tensor_meta_msgs_def assms(1,2) recv_long_scalar
        item_long_scalar l d)
qed

lemma create_receive_loop_msgs:
  assumes "\<forall>t \<in> set ts. \<exists>c. DTYPE_TO_ID (dtype t) = Some c \<and> ID_TO_DTYPE c = Some (dtype t)"
    and "\<forall>t \<in> set ts. requires_grad t \<longrightarrow> is_floating_point t"
  shows "create_receive_loop ID_TO_DTYPE (length ts)
           (concat (map (tensor_meta_msgs DTYPE_TO_ID) ts) @ rest) buffers =
         Inr (buffers @ map receive_buffer_for ts, rest)"
  using assms
proof (induction ts arbitrary: buffers)
  case Nil
  then show ?case by simp
next
  case (Cons t ts)
  from Cons.prems(1) obtain c where c: "DTYPE_TO_ID (dtype t) = Some c" "ID_TO_DTYPE c = Some (dtype t)"
    by auto
  from Cons.prems(2) have f: "requires_grad t \<longrightarrow> is_floating_point t" by simp
  from Cons.prems have r:
    "\<forall>t \<in> set ts. \<exists>c. DTYPE_TO_ID (dtype t) = Some c \<and> ID_TO_DTYPE c = Some (dtype t)"
    "\<forall>t \<in> set ts. requires_grad t \<longrightarrow> is_floating_point t" by simp_all
  show ?case
    by (simp add: recv_tensor_meta_msgs[of DTYPE_TO_ID t c ID_TO_DTYPE, OF c f] Cons.IH[OF r])
qed

lemma create_receive_buffer_envelope:
  assumes "\<forall>t \<in> set ts. \<exists>c. DTYPE_TO_ID (dtype t) = Some c \<and> ID_TO_DTYPE c = Some (dtype t)"
    and "\<forall>t \<in> set ts. requires_grad t \<longrightarrow> is_floating_point t"
  shows "create_receive_buffer ID_TO_DTYPE (metadata_envelope DTYPE_TO_ID ts @ rest) =
           Inr (map receive_buffer_for ts, rest)"
  using create_receive_loop_msgs[OF assms, of rest "[]"]
  by (simp add: create_receive_buffer_def metadata_envelope_def recv_long_scalar item_long_scalar)


lemma recv_payload_loop_fresh:
  "recv_payload_loop (map receive_buffer_for ts) (ts @ rest) =
     Inr (map (\<lambda>t. (receive_buffer_for t)\<lparr>data := data t\<rparr>) ts,
          map (\<lambda>t. (receive_buffer_for t)\<lparr>data := data t\<rparr>) ts, rest)"
  by (induction ts) (simp_all add: recv_def receive_buffer_for_def clone_detach_def)

lemma recv_activations_first:
  assumes "\<forall>t \<in> set ts. \<exists>c. DTYPE_TO_ID (dtype t) = Some c \<and> ID_TO_DTYPE c = Some (dtype t)"
    and "\<forall>t \<in> set ts. requires_grad t \<longrightarrow> is_floating_point t"
    and "activation_recv_buf q = None"
    and "from_prev q = metadata_envelope DTYPE_TO_ID ts @ ts @ rest"
    and "py_index (inputs q) b = Some j"
  shows "recv_activations ID_TO_DTYPE b q =
     Inr (q\<lparr>activation_recv_buf :=
              Some (map (\<lambda>t. (receive_buffer_for t)\<lparr>data := data t\<rparr>) ts),
            from_prev := rest,
            inputs := (inputs q)[j := PTuple (map PTensor
              (map (\<lambda>t. (receive_buffer_for t)\<lparr>data := data t\<rparr>) ts))]\<rparr>)"
  using assms(3-5) create_receive_buffer_envelope[OF assms(1,2), of "ts @ rest"]
  by (simp add: recv_activations_def recv_payload_loop_fresh setitem_def)





lemma send_grad_loop_success:
  "send_grad_loop vs w = Inr w' \<Longrightarrow>
   \<exists>ts. vs = map PTensor ts \<and> (\<forall>t \<in> set ts. requires_grad t \<longleftrightarrow> grad t \<noteq> None) \<and>
        w' = w @ map (the \<circ> grad_of) (filter requires_grad ts)"
proof (induction vs arbitrary: w)
  case Nil
  then show ?case by simp
next
  case (Cons v vs)
  from Cons.prems obtain t where v: "v = PTensor t" by (cases v) simp_all
  show ?case
  proof (cases "requires_grad t")
    case True
    with Cons.prems v obtain g where g: "grad_of t = Some g"
      and r: "send_grad_loop vs (send g w) = Inr w'"
      by (auto split: option.splits)
    from g have gn: "grad t \<noteq> None" by (auto simp: grad_of_def split: option.splits)
    from Cons.IH[OF r] obtain ts where ts: "vs = map PTensor ts"
      "\<forall>t \<in> set ts. requires_grad t \<longleftrightarrow> grad t \<noteq> None"
      "w' = send g w @ map (the \<circ> grad_of) (filter requires_grad ts)" by blast
    with v True g gn have "v # vs = map PTensor (t # ts) \<and>
      (\<forall>u \<in> set (t # ts). requires_grad u \<longleftrightarrow> grad u \<noteq> None) \<and>
      w' = w @ map (the \<circ> grad_of) (filter requires_grad (t # ts))"
      by (simp add: send_def)
    then show ?thesis by (rule exI[of _ "t # ts"])
  next
    case False
    with Cons.prems v have gn: "grad t = None" and r: "send_grad_loop vs w = Inr w'"
      by (auto split: if_splits)
    from Cons.IH[OF r] obtain ts where ts: "vs = map PTensor ts"
      "\<forall>t \<in> set ts. requires_grad t \<longleftrightarrow> grad t \<noteq> None"
      "w' = w @ map (the \<circ> grad_of) (filter requires_grad ts)" by blast
    with v False gn have "v # vs = map PTensor (t # ts) \<and>
      (\<forall>u \<in> set (t # ts). requires_grad u \<longleftrightarrow> grad u \<noteq> None) \<and>
      w' = w @ map (the \<circ> grad_of) (filter requires_grad (t # ts))"
      by simp
    then show ?thesis by (rule exI[of _ "t # ts"])
  qed
qed

lemma send_grad_loop_tensors:
  "\<forall>t \<in> set ts. requires_grad t \<longleftrightarrow> grad t \<noteq> None \<Longrightarrow>
   send_grad_loop (map PTensor ts) w = Inr (w @ map (the \<circ> grad_of) (filter requires_grad ts))"
proof (induction ts arbitrary: w)
  case Nil
  then show ?case by simp
next
  case (Cons t ts)
  then show ?case
    by (cases "grad t") (auto simp: grad_of_def send_def)
qed

lemma create_gradients_loop_tensors:
  "create_gradients_loop (map PTensor us) buffers =
     Inr (buffers @ map zeros_like (filter requires_grad us))"
  by (induction us arbitrary: buffers) simp_all

lemma filter_by_positions:
  "filter P xs = map ((!) xs) (filter (\<lambda>i. P (xs ! i)) [0 ..< length xs])"
proof (induction xs rule: rev_induct)
  case Nil
  then show ?case by simp
next
  case (snoc x xs)
  have "filter (\<lambda>i. P ((xs @ [x]) ! i)) [0 ..< length xs] =
        filter (\<lambda>i. P (xs ! i)) [0 ..< length xs]"
    by (rule filter_cong) (simp_all add: nth_append)
  moreover have "map ((!) (xs @ [x])) (filter (\<lambda>i. P (xs ! i)) [0 ..< length xs]) =
        map ((!) xs) (filter (\<lambda>i. P (xs ! i)) [0 ..< length xs])"
    by (rule map_cong) (simp_all add: nth_append)
  ultimately show ?case
    using snoc by simp
qed

lemma grad_positions_flags:
  "map requires_grad ts = map requires_grad us \<Longrightarrow> grad_positions ts = grad_positions us"
proof -
  assume e: "map requires_grad ts = map requires_grad us"
  then have l: "length ts = length us" by (rule map_eq_imp_length_eq)
  have "requires_grad (ts ! i) = requires_grad (us ! i)" if "i < length ts" for i
    using that e l by (metis nth_map)
  then show ?thesis
    unfolding grad_positions_def l[symmetric]
    by (intro filter_cong) simp_all
qed

lemma layout_receive_buffer_for: "layout (receive_buffer_for t) = layout t"
  by (simp add: layout_def receive_buffer_for_def)

lemma example_tables:
  "\<forall>t \<in> set [example_float, example_long].
     \<exists>c. example_DTYPE_TO_ID (dtype t) = Some c \<and> example_ID_TO_DTYPE c = Some (dtype t)"
  by (simp add: example_DTYPE_TO_ID_def example_ID_TO_DTYPE_def example_float_def
      example_long_def)

lemma example_well_formed:
  "\<forall>t \<in> set [example_float, example_long]. requires_grad t \<longrightarrow> is_floating_point t"
  by (simp add: example_float_def example_long_def is_floating_point_def)

lemma example_outputs:
  "getitem (outputs example_pipeline) 0 =
     Inr (PTuple (map PTensor [example_float, example_long]))"
  by (simp add: example_pipeline_def getitem_def py_index_def)

lemma example_inputs:
  "getitem (inputs example_pipeline) 0 =
     Inr (PTuple (map PTensor [example_float, example_long]))"
  by (simp add: example_pipeline_def getitem_def py_index_def)

lemma example_index: "py_index (inputs example_pipeline) 1 = Some 1"
  by (simp add: example_pipeline_def py_index_def)

text \<open>
  Claim C3. Metadata round trip. The sender's outputs slot holds the tensors \<open>ts\<close>, whose
  dtypes the two tables map to a code and back and which require a gradient only when
  floating point (as PyTorch enforces). The first \<^verbatim>\<open>send_activations\<close> then puts the
  envelope of the spec, followed by the tensors, on the wire, and on that wire
  \<^verbatim>\<open>create_receive_buffer\<close> allocates as many buffers as there are tensors, with the
  shapes, dtypes and \<^verbatim>\<open>requires_grad\<close> flags of the sender's tensors, in order;
  \<^verbatim>\<open>recv_activations\<close> keeps buffers of that layout.
\<close>

theorem metadata_round_trip:
  assumes "\<forall>t \<in> set ts. \<exists>c. DTYPE_TO_ID (dtype t) = Some c \<and> ID_TO_DTYPE c = Some (dtype t)"
    and "\<forall>t \<in> set ts. requires_grad t \<longrightarrow> is_floating_point t"
    and "getitem (outputs p) b = Inr (PTuple (map PTensor ts))"
    and "\<not> sent_activation_meta p" and "to_next p = []"
    and "activation_recv_buf q = None" and "py_index (inputs q) b' = Some j"
  shows "\<exists>p' q' buffers filled.
     send_activations DTYPE_TO_ID b p = Inr p' \<and>
     to_next p' = metadata_envelope DTYPE_TO_ID ts @ ts \<and>
     create_receive_buffer ID_TO_DTYPE (to_next p') = Inr (buffers, ts) \<and>
     length buffers = length ts \<and>
     map shape buffers = map shape ts \<and>
     map dtype buffers = map dtype ts \<and>
     map requires_grad buffers = map requires_grad ts \<and>
     recv_activations ID_TO_DTYPE b' (q\<lparr>from_prev := to_next p'\<rparr>) = Inr q' \<and>
     activation_recv_buf q' = Some filled \<and>
     map layout filled = map layout buffers"
proof -
  let ?p' = "p\<lparr>to_next := to_next p @ metadata_envelope DTYPE_TO_ID ts @ ts,
               sent_activation_meta := True\<rparr>"
  let ?q = "q\<lparr>from_prev := to_next ?p'\<rparr>"
  let ?fill = "\<lambda>t. (receive_buffer_for t)\<lparr>data := data t\<rparr>"
  have known: "\<forall>t \<in> set ts. DTYPE_TO_ID (dtype t) \<noteq> None"
    using assms(1) by auto
  have s: "send_activations DTYPE_TO_ID b p = Inr ?p'"
    by (rule send_activations_first[OF assms(3,4) known])
  have w: "to_next ?p' = metadata_envelope DTYPE_TO_ID ts @ ts"
    using assms(5) by simp
  have c: "create_receive_buffer ID_TO_DTYPE (to_next ?p') = Inr (map receive_buffer_for ts, ts)"
    unfolding w by (rule create_receive_buffer_envelope[OF assms(1,2)])
  have q1: "activation_recv_buf ?q = None" using assms(6) by simp
  have q2: "from_prev ?q = metadata_envelope DTYPE_TO_ID ts @ ts @ []" using w by simp
  have q3: "py_index (inputs ?q) b' = Some j" using assms(7) by simp
  note r = recv_activations_first[OF assms(1,2) q1 q2 q3]
  have f: "activation_recv_buf (?q\<lparr>activation_recv_buf := Some (map ?fill ts), from_prev := [],
      inputs := (inputs ?q)[j := PTuple (map PTensor (map ?fill ts))]\<rparr>) = Some (map ?fill ts)"
    by simp
  have l: "map layout (map ?fill ts) = map layout (map receive_buffer_for ts)"
    by (simp add: layout_def receive_buffer_for_def)
  have m: "length (map receive_buffer_for ts) = length ts"
    "map shape (map receive_buffer_for ts) = map shape ts"
    "map dtype (map receive_buffer_for ts) = map dtype ts"
    "map requires_grad (map receive_buffer_for ts) = map requires_grad ts"
    by (simp_all add: receive_buffer_for_def comp_def)
  from s w c m r f l show ?thesis by blast
qed

theorem metadata_round_trip_witness:
  "\<exists>p' q' buffers filled.
     send_activations example_DTYPE_TO_ID 0 example_pipeline = Inr p' \<and>
     to_next p' =
       metadata_envelope example_DTYPE_TO_ID [example_float, example_long] @
       [example_float, example_long] \<and>
     create_receive_buffer example_ID_TO_DTYPE (to_next p') =
       Inr (buffers, [example_float, example_long]) \<and>
     length buffers = length [example_float, example_long] \<and>
     map shape buffers = map shape [example_float, example_long] \<and>
     map dtype buffers = map dtype [example_float, example_long] \<and>
     map requires_grad buffers = map requires_grad [example_float, example_long] \<and>
     recv_activations example_ID_TO_DTYPE 1 (example_pipeline\<lparr>from_prev := to_next p'\<rparr>) = Inr q' \<and>
     activation_recv_buf q' = Some filled \<and>
     map layout filled = map layout buffers"
proof -
  have a: "\<not> sent_activation_meta example_pipeline" "to_next example_pipeline = []"
    "activation_recv_buf example_pipeline = None"
    by (simp_all add: example_pipeline_def)
  show ?thesis
    by (rule metadata_round_trip[OF example_tables example_well_formed example_outputs a
          example_index])
qed







lemma map_PTensor_eq: "map PTensor ts = map PTensor us \<longleftrightarrow> ts = us"
  by (rule inj_map_eq_map) (simp add: inj_def)


text \<open>
  Claim C4. Gradient filter agreement. When \<^verbatim>\<open>send_gradients\<close> returns it has sent
  exactly the gradients of the input entries whose \<^verbatim>\<open>requires_grad\<close> is set, in tuple
  order, and it returns whenever exactly those entries carry a gradient;
  \<^verbatim>\<open>create_gradients_buffer\<close> allocates one zero buffer per output entry whose flag is
  set, in tuple order, and nothing for the others, and \<^verbatim>\<open>recv_gradients\<close> keeps buffers
  of that layout. When the flags of the two tuples agree, the positions selected on both
  sides are the same list, so the k-th gradient sent and the k-th buffer belong to the
  same tuple position.
\<close>

theorem gradient_filter_agreement:
  assumes "getitem (inputs p) b = Inr (PTuple (map PTensor ts))"
    and "getitem (outputs q) b' = Inr (PTuple (map PTensor us))"
  shows "(\<forall>p'. send_gradients b p = Inr p' \<longrightarrow>
            to_prev p' = to_prev p @ map (\<lambda>i. the (grad_of (ts ! i))) (grad_positions ts)) \<and>
         ((\<forall>t \<in> set ts. requires_grad t \<longleftrightarrow> grad t \<noteq> None) \<longrightarrow>
            (\<exists>p'. send_gradients b p = Inr p')) \<and>
         create_gradients_buffer (PTuple (map PTensor us)) =
            Inr (map (\<lambda>i. zeros_like (us ! i)) (grad_positions us)) \<and>
         (grad_recv_buf q = None \<longrightarrow>
            (\<forall>q'. recv_gradients b' q = Inr q' \<longrightarrow>
               (\<exists>filled. grad_recv_buf q' = Some filled \<and>
                  map layout filled =
                    map layout (map (\<lambda>i. zeros_like (us ! i)) (grad_positions us))))) \<and>
         (map requires_grad ts = map requires_grad us \<longrightarrow>
            grad_positions ts = grad_positions us)"
proof (intro conjI allI impI)
  fix p' assume s: "send_gradients b p = Inr p'"
  from s assms(1) obtain w where
    l: "send_grad_loop (map PTensor ts) (to_prev p) = Inr w" and w: "to_prev p' = w"
    by (auto simp: send_gradients_def split: sum.splits)
  from send_grad_loop_success[OF l] obtain ts' where
    "map PTensor ts = map PTensor ts'"
    "w = to_prev p @ map (the \<circ> grad_of) (filter requires_grad ts')" by blast
  then have "w = to_prev p @ map (the \<circ> grad_of) (filter requires_grad ts)"
    by (simp add: map_PTensor_eq)
  with w show "to_prev p' = to_prev p @ map (\<lambda>i. the (grad_of (ts ! i))) (grad_positions ts)"
    by (simp add: filter_by_positions[of requires_grad ts] grad_positions_def comp_def)
next
  assume g: "\<forall>t \<in> set ts. requires_grad t \<longleftrightarrow> grad t \<noteq> None"
  from assms(1) obtain j where j: "py_index (inputs p) b = Some j"
    by (auto simp: getitem_def split: option.splits)
  show "\<exists>p'. send_gradients b p = Inr p'"
    using assms(1) j by (simp add: send_gradients_def send_grad_loop_tensors[OF g] setitem_def)
next
  show c: "create_gradients_buffer (PTuple (map PTensor us)) =
            Inr (map (\<lambda>i. zeros_like (us ! i)) (grad_positions us))"
    by (simp add: create_gradients_buffer_def create_gradients_loop_tensors
        filter_by_positions[of requires_grad us] grad_positions_def comp_def)
next
  fix q' assume n: "grad_recv_buf q = None" and r: "recv_gradients b' q = Inr q'"
  have c: "create_gradients_buffer (PTuple (map PTensor us)) =
            Inr (map (\<lambda>i. zeros_like (us ! i)) (grad_positions us))"
    by (simp add: create_gradients_buffer_def create_gradients_loop_tensors
        filter_by_positions[of requires_grad us] grad_positions_def comp_def)
  from r assms(2) n c obtain filled w where
    l: "recv_grad_loop (map (\<lambda>i. zeros_like (us ! i)) (grad_positions us)) (from_next q)
          = Inr (filled, w)"
    and f: "grad_recv_buf q' = Some filled"
    by (auto simp: recv_gradients_def split: sum.splits)
  have "map layout filled = map layout buffers"
    if "recv_grad_loop buffers v = Inr (filled, w)" for buffers v filled w
    using that
  proof (induction buffers arbitrary: v filled)
    case Nil
    then show ?case by simp
  next
    case (Cons x xs)
    then show ?case
      by (auto simp: recv_def layout_def split: sum.splits list.splits if_splits)
  qed
  from this[OF l] f
  show "\<exists>filled. grad_recv_buf q' = Some filled \<and>
          map layout filled = map layout (map (\<lambda>i. zeros_like (us ! i)) (grad_positions us))"
    by blast
next
  assume "map requires_grad ts = map requires_grad us"
  then show "grad_positions ts = grad_positions us" by (rule grad_positions_flags)
qed

theorem gradient_filter_agreement_witness:
  "\<exists>p'. send_gradients 0 example_pipeline = Inr p' \<and>
     to_prev p' = [the (grad_of example_float)] \<and>
     create_gradients_buffer (PTuple (map PTensor [example_float, example_long])) =
       Inr [zeros_like example_float]"
proof -
  let ?ts = "[example_float, example_long]"
  note t = gradient_filter_agreement[of example_pipeline 0 ?ts example_pipeline 0 ?ts,
      OF example_inputs example_outputs]
  have g: "\<forall>t \<in> set ?ts. requires_grad t \<longleftrightarrow> grad t \<noteq> None"
    by (simp add: example_float_def example_long_def)
  have pos: "grad_positions ?ts = [0]"
    by (simp add: grad_positions_def example_float_def example_long_def)
  from t g obtain p' where s: "send_gradients 0 example_pipeline = Inr p'" by blast
  with t have "to_prev p' = to_prev example_pipeline @
      map (\<lambda>i. the (grad_of (?ts ! i))) (grad_positions ?ts)" by blast
  then have w: "to_prev p' = [the (grad_of example_float)]"
    by (simp add: pos example_pipeline_def)
  from t have "create_gradients_buffer (PTuple (map PTensor ?ts)) =
      Inr (map (\<lambda>i. zeros_like (?ts ! i)) (grad_positions ?ts))" by blast
  then have c: "create_gradients_buffer (PTuple (map PTensor ?ts)) = Inr [zeros_like example_float]"
    by (simp add: pos)
  from s w c show ?thesis by blast
qed

section \<open>Properties of the stage runtime\<close>

lemma prepare_input_tensor:
  "prepare_input (PTensor t) =
     PTensor \<lparr>shape = shape t, dtype = dtype t, device = CUDA,
              requires_grad = is_floating_point t, data = data t, grad = None\<rparr>"
  by (simp add: clone_detach_def)

text \<open>
  Claim C9 as stated fails at the last stage: \<^verbatim>\<open>load_microbatch\<close> has no branch for it.
  On a last stage that is not the first, with a batch waiting, the call returns and
  leaves the iterator, the inputs and the labels as they were.
\<close>

theorem load_microbatch_last_stage_idle:
  "is_first_stage example_last_stage = Inr False \<and>
   is_last_stage example_last_stage = Inr True \<and>
   data_iterator example_last_stage = [PMapping [(''labels'', PTensor example_long)]] \<and>
   load_microbatch 0 example_last_stage = Inr example_last_stage"
  by (simp add: load_microbatch_def is_first_stage_def is_last_stage_def
      example_last_stage_def example_pipeline_def)

text \<open>
  Claim C9, amended. \<^verbatim>\<open>load_microbatch\<close> fails its assertion on a stage that is
  neither first nor last; on the first stage it takes the next batch from the iterator
  and stores the tuple of its prepared values in the inputs slot, a prepared tensor being
  a detached copy on the device whose \<^verbatim>\<open>requires_grad\<close> is set exactly when it is
  floating point; on a last stage that is not the first it returns without any effect.
\<close>

theorem load_microbatch_by_stage:
  "(is_first_stage p = Inr False \<and> is_last_stage p = Inr False \<longrightarrow>
      load_microbatch b p = Inl AssertionError) \<and>
   (is_first_stage p = Inr True \<and> data_iterator p = PMapping kvs # rest \<and>
    py_index (inputs p) b = Some j \<longrightarrow>
      load_microbatch b p =
        Inr (p\<lparr>data_iterator := rest,
               inputs := (inputs p)[j := PTuple (map (\<lambda>(k, t). prepare_input t) kvs)]\<rparr>)) \<and>
   prepare_input (PTensor t) =
     PTensor \<lparr>shape = shape t, dtype = dtype t, device = CUDA,
              requires_grad = is_floating_point t, data = data t, grad = None\<rparr> \<and>
   (is_first_stage p = Inr False \<and> is_last_stage p = Inr True \<longrightarrow>
      load_microbatch b p = Inr p)"
  by (simp add: load_microbatch_def prepare_inputs_def setitem_def clone_detach_def)

theorem load_microbatch_by_stage_witness:
  "load_microbatch 1 example_first_stage =
     Inr (example_first_stage\<lparr>data_iterator := [],
            inputs := (inputs example_first_stage)
              [1 := PTuple (map (\<lambda>(k, t). prepare_input t) [(''labels'', PTensor example_long)])]\<rparr>) \<and>
   load_microbatch 0 example_last_stage = Inr example_last_stage \<and>
   load_microbatch 0 (example_last_stage\<lparr>model_layers := [1, 2]\<rparr>) = Inl AssertionError"
proof -
  have f: "is_first_stage example_first_stage = Inr True"
    "data_iterator example_first_stage = PMapping [(''labels'', PTensor example_long)] # []"
    "py_index (inputs example_first_stage) 1 = Some 1"
    by (simp_all add: is_first_stage_def example_first_stage_def example_last_stage_def
        example_pipeline_def py_index_def)
  have l: "is_first_stage example_last_stage = Inr False"
    "is_last_stage example_last_stage = Inr True"
    by (simp_all add: is_first_stage_def is_last_stage_def example_last_stage_def
        example_pipeline_def)
  have m: "is_first_stage (example_last_stage\<lparr>model_layers := [1, 2]\<rparr>) = Inr False"
    "is_last_stage (example_last_stage\<lparr>model_layers := [1, 2]\<rparr>) = Inr False"
    by (simp_all add: is_first_stage_def is_last_stage_def example_last_stage_def
        example_pipeline_def)
  from load_microbatch_by_stage[where p = example_first_stage
      and kvs = "[(''labels'', PTensor example_long)]" and rest = "[]" and b = 1 and j = 1] f
  have a: "load_microbatch 1 example_first_stage =
     Inr (example_first_stage\<lparr>data_iterator := [],
            inputs := (inputs example_first_stage)
              [1 := PTuple (map (\<lambda>(k, t). prepare_input t) [(''labels'', PTensor example_long)])]\<rparr>)"
    by blast
  from load_microbatch_by_stage[where p = example_last_stage and b = 0] l
  have b: "load_microbatch 0 example_last_stage = Inr example_last_stage" by blast
  from load_microbatch_by_stage[where p = "example_last_stage\<lparr>model_layers := [1, 2]\<rparr>"
      and b = 0] m
  have c: "load_microbatch 0 (example_last_stage\<lparr>model_layers := [1, 2]\<rparr>) = Inl AssertionError"
    by blast
  from a b c show ?thesis by blast
qed

section \<open>Properties of the execution engine\<close>

lemma wait_for_watcher_from:
  "\<not> is_alive (j + n) \<Longrightarrow> wait_for_watcher is_alive j = Some ()"
proof (induction n arbitrary: j)
  case 0
  then show ?case by (subst wait_for_watcher.simps) simp
next
  case (Suc n)
  then have "wait_for_watcher is_alive (Suc j) = Some ()" by simp
  then show ?case by (subst wait_for_watcher.simps) simp
qed

lemma wait_for_watcher_returns:
  "\<exists>k. \<not> is_alive k \<Longrightarrow> wait_for_watcher is_alive 0 = Some ()"
  using wait_for_watcher_from[of is_alive 0] by auto

lemma wait_for_watcher_Some:
  assumes "wait_for_watcher is_alive j = Some u"
  shows "\<exists>k. \<not> is_alive k"
  by (rule wait_for_watcher.raw_induct[where P = "\<lambda>f k y. \<exists>k. \<not> f k", OF _ assms])
    (auto split: if_splits)

lemma wait_for_watcher_hangs:
  "\<forall>k. is_alive k \<Longrightarrow> wait_for_watcher is_alive 0 = None"
  using wait_for_watcher_Some[of is_alive 0] by (cases "wait_for_watcher is_alive 0") auto

lemma start_watcher_thread: "notification_receiver_thread (start_watcher is_alive eng) \<noteq> None"
  by (simp add: start_watcher_def split: option.splits)

lemma start_watcher_flag:
  "need_reconfiguration (start_watcher is_alive eng) = need_reconfiguration eng"
  by (simp add: start_watcher_def split: option.splits)

lemma execute_pipeline_raises:
  assumes "\<not> need_reconfiguration eng" "\<not> getattr_invalidated it"
  shows "execute is_alive (Inl (Exception msg)) eng it =
           (if prefix ''Default process group'' msg \<or> prefix ''Connection closed'' msg
            then (Returned None, start_watcher is_alive eng, it\<lparr>invalidated := Some True\<rparr>)
            else (Raised (Exception msg), start_watcher is_alive eng, it))"
    and "execute is_alive (Inl (BaseException msg)) eng it =
           (Raised (BaseException msg), start_watcher is_alive eng, it)"
  using assms by (simp_all add: execute_def Let_def)

lemma execute_while_reconfiguring:
  assumes "need_reconfiguration eng" "notification_receiver_thread eng \<noteq> None"
    "\<exists>k. \<not> is_alive k"
  shows "execute is_alive run eng it = (Returned None, eng, it)"
  using assms(1,2) wait_for_watcher_returns[OF assms(3)]
  by (auto simp: execute_def)

lemma execute_blocks_on_live_watcher:
  assumes "need_reconfiguration eng" "notification_receiver_thread eng \<noteq> None"
    "\<forall>k. is_alive k"
  shows "execute is_alive run eng it = (Hangs, eng, it)"
  using assms(1,2) wait_for_watcher_hangs[OF assms(3)]
  by (auto simp: execute_def)

lemma execute_without_thread:
  assumes "need_reconfiguration eng" "notification_receiver_thread eng = None"
  shows "\<exists>msg. execute is_alive run eng it = (Raised (Exception msg), eng, it)"
  using assms by (simp add: execute_def)

text \<open>
  Claim C5. When the pipeline run raises an \<^verbatim>\<open>Exception\<close>, \<^verbatim>\<open>execute\<close> returns
  \<^verbatim>\<open>None\<close> and sets the iterator's \<^verbatim>\<open>invalidated\<close> attribute if the message starts
  with one of the two markers, and lets the same exception through otherwise. What is
  not an \<^verbatim>\<open>Exception\<close> is never caught.
\<close>

theorem execute_recovers_teardown_only:
  assumes "\<not> need_reconfiguration eng" and "\<not> getattr_invalidated it"
  shows "execute is_alive (Inl (Exception msg)) eng it =
           (if prefix ''Default process group'' msg \<or> prefix ''Connection closed'' msg
            then (Returned None, start_watcher is_alive eng, it\<lparr>invalidated := Some True\<rparr>)
            else (Raised (Exception msg), start_watcher is_alive eng, it)) \<and>
         execute is_alive (Inl (BaseException msg)) eng it =
           (Raised (BaseException msg), start_watcher is_alive eng, it)"
proof (rule conjI)
  show "execute is_alive (Inl (Exception msg)) eng it =
           (if prefix ''Default process group'' msg \<or> prefix ''Connection closed'' msg
            then (Returned None, start_watcher is_alive eng, it\<lparr>invalidated := Some True\<rparr>)
            else (Raised (Exception msg), start_watcher is_alive eng, it))"
    by (rule execute_pipeline_raises(1)[OF assms])
  show "execute is_alive (Inl (BaseException msg)) eng it =
           (Raised (BaseException msg), start_watcher is_alive eng, it)"
    by (rule execute_pipeline_raises(2)[OF assms])
qed

theorem execute_recovers_teardown_only_witness:
  "execute (\<lambda>k. False) (Inl (Exception ''Connection closed by peer'') :: raised + unit option)
     new_engine \<lparr>invalidated = None\<rparr> =
     (Returned None, start_watcher (\<lambda>k. False) new_engine, \<lparr>invalidated = Some True\<rparr>) \<and>
   execute (\<lambda>k. False) (Inl (Exception ''CUDA out of memory'') :: raised + unit option)
     new_engine \<lparr>invalidated = None\<rparr> =
     (Raised (Exception ''CUDA out of memory''), start_watcher (\<lambda>k. False) new_engine,
      \<lparr>invalidated = None\<rparr>)"
proof -
  have a: "\<not> need_reconfiguration new_engine" by (simp add: new_engine_def)
  have b: "\<not> getattr_invalidated \<lparr>invalidated = None\<rparr>" by (simp add: getattr_invalidated_def)
  have c: "prefix ''Connection closed'' ''Connection closed by peer''" by simp
  have d: "\<not> (prefix ''Default process group'' ''CUDA out of memory'' \<or>
               prefix ''Connection closed'' ''CUDA out of memory'')" by simp
  have "execute (\<lambda>k. False) (Inl (Exception ''Connection closed by peer'') :: raised + unit option)
      new_engine \<lparr>invalidated = None\<rparr> =
     (if prefix ''Default process group'' ''Connection closed by peer'' \<or>
         prefix ''Connection closed'' ''Connection closed by peer''
      then (Returned None, start_watcher (\<lambda>k. False) new_engine,
            \<lparr>invalidated = None\<rparr>\<lparr>invalidated := Some True\<rparr>)
      else (Raised (Exception ''Connection closed by peer''),
            start_watcher (\<lambda>k. False) new_engine, \<lparr>invalidated = None\<rparr>))"
    using execute_recovers_teardown_only[OF a b] by (rule conjunct1)
  then have e: "execute (\<lambda>k. False)
      (Inl (Exception ''Connection closed by peer'') :: raised + unit option)
      new_engine \<lparr>invalidated = None\<rparr> =
     (Returned None, start_watcher (\<lambda>k. False) new_engine, \<lparr>invalidated = Some True\<rparr>)"
    using c by simp
  have "execute (\<lambda>k. False) (Inl (Exception ''CUDA out of memory'') :: raised + unit option)
      new_engine \<lparr>invalidated = None\<rparr> =
     (if prefix ''Default process group'' ''CUDA out of memory'' \<or>
         prefix ''Connection closed'' ''CUDA out of memory''
      then (Returned None, start_watcher (\<lambda>k. False) new_engine,
            \<lparr>invalidated = None\<rparr>\<lparr>invalidated := Some True\<rparr>)
      else (Raised (Exception ''CUDA out of memory''),
            start_watcher (\<lambda>k. False) new_engine, \<lparr>invalidated = None\<rparr>))"
    using execute_recovers_teardown_only[OF a b] by (rule conjunct1)
  then have f: "execute (\<lambda>k. False)
      (Inl (Exception ''CUDA out of memory'') :: raised + unit option)
      new_engine \<lparr>invalidated = None\<rparr> =
     (Raised (Exception ''CUDA out of memory''), start_watcher (\<lambda>k. False) new_engine,
      \<lparr>invalidated = None\<rparr>)"
    using d by simp
  from e f show ?thesis by (rule conjI)
qed

text \<open>
  Claim C6. The lifecycle of the reconfiguration flag: the error handler of \<^verbatim>\<open>execute\<close>
  invalidates the iterator (and by then a watcher thread exists); the watcher sets
  \<^verbatim>\<open>need_reconfiguration\<close>; with the flag set, and once the watcher thread has ended,
  \<^verbatim>\<open>execute\<close> returns \<^verbatim>\<open>None\<close> and changes nothing; \<^verbatim>\<open>reconfigure\<close> clears the
  flag when the plugin's reconfiguration returns.
\<close>

theorem reconfiguration_flag_lifecycle:
  "(\<not> need_reconfiguration eng \<and> \<not> getattr_invalidated it \<and>
      (prefix ''Default process group'' msg \<or> prefix ''Connection closed'' msg) \<longrightarrow>
        (\<exists>eng1 it1. execute is_alive (Inl (Exception msg)) eng it = (Returned None, eng1, it1) \<and>
           getattr_invalidated it1 \<and> notification_receiver_thread eng1 \<noteq> None)) \<and>
   need_reconfiguration (notification_receive_func eng) \<and>
   notification_receiver_thread (notification_receive_func eng) =
     notification_receiver_thread eng \<and>
   (need_reconfiguration eng \<and> notification_receiver_thread eng \<noteq> None \<and>
      (\<exists>k. \<not> is_alive k) \<longrightarrow> execute is_alive run eng it = (Returned None, eng, it)) \<and>
   reconfigure (Inr result) eng = (Returned result, eng\<lparr>need_reconfiguration := False\<rparr>) \<and>
   \<not> need_reconfiguration (snd (reconfigure (Inr result) eng))"
proof (intro conjI impI)
  assume a: "\<not> need_reconfiguration eng \<and> \<not> getattr_invalidated it \<and>
      (prefix ''Default process group'' msg \<or> prefix ''Connection closed'' msg)"
  then have "execute is_alive (Inl (Exception msg)) eng it =
      (Returned None, start_watcher is_alive eng, it\<lparr>invalidated := Some True\<rparr>)"
    using execute_pipeline_raises(1)[of eng it is_alive msg] by simp
  moreover have "getattr_invalidated (it\<lparr>invalidated := Some True\<rparr>)"
    by (simp add: getattr_invalidated_def)
  ultimately show "\<exists>eng1 it1.
      execute is_alive (Inl (Exception msg)) eng it = (Returned None, eng1, it1) \<and>
      getattr_invalidated it1 \<and> notification_receiver_thread eng1 \<noteq> None"
    using start_watcher_thread[of is_alive eng] by blast
next
  show "need_reconfiguration (notification_receive_func eng)"
    by (simp add: notification_receive_func_def)
  show "notification_receiver_thread (notification_receive_func eng) =
     notification_receiver_thread eng"
    by (simp add: notification_receive_func_def)
next
  assume "need_reconfiguration eng \<and> notification_receiver_thread eng \<noteq> None \<and>
      (\<exists>k. \<not> is_alive k)"
  then show "execute is_alive run eng it = (Returned None, eng, it)"
    using execute_while_reconfiguring[of eng is_alive run it] by blast
next
  show "reconfigure (Inr result) eng = (Returned result, eng\<lparr>need_reconfiguration := False\<rparr>)"
    by (simp add: reconfigure_def)
  show "\<not> need_reconfiguration (snd (reconfigure (Inr result) eng))"
    by (simp add: reconfigure_def)
qed

theorem reconfiguration_flag_lifecycle_witness:
  "\<exists>eng1 it1.
     execute (\<lambda>k. False)
       (Inl (Exception ''Default process group has not been initialized'')
          :: raised + unit option)
       new_engine \<lparr>invalidated = None\<rparr> = (Returned None, eng1, it1) \<and>
     getattr_invalidated it1 \<and>
     need_reconfiguration (notification_receive_func eng1) \<and>
     execute (\<lambda>k. k < 2) (Inr (Some ())) (notification_receive_func eng1) it1 =
       (Returned None, notification_receive_func eng1, it1) \<and>
     \<not> need_reconfiguration (snd (reconfigure (Inr ()) (notification_receive_func eng1)))"
proof -
  let ?msg = "''Default process group has not been initialized''"
  let ?run = "Inr (Some ()) :: raised + unit option"
  have p: "prefix ''Default process group'' ?msg" by simp
  have a: "\<not> need_reconfiguration new_engine \<and> \<not> getattr_invalidated \<lparr>invalidated = None\<rparr> \<and>
      (prefix ''Default process group'' ?msg \<or> prefix ''Connection closed'' ?msg)"
    using p by (simp only: new_engine_def getattr_invalidated_def, simp)
  have "\<exists>eng1 it1.
      execute (\<lambda>k. False) (Inl (Exception ?msg) :: raised + unit option) new_engine
        \<lparr>invalidated = None\<rparr> = (Returned None, eng1, it1) \<and>
      getattr_invalidated it1 \<and> notification_receiver_thread eng1 \<noteq> None"
    by (rule mp[OF conjunct1[OF reconfiguration_flag_lifecycle[where eng = new_engine
        and it = "\<lparr>invalidated = None\<rparr>" and msg = ?msg and is_alive = "\<lambda>k. False"
        and run = ?run and result = "()"]] a])
  then obtain eng1 it1 where
    e1: "execute (\<lambda>k. False) (Inl (Exception ?msg) :: raised + unit option) new_engine
           \<lparr>invalidated = None\<rparr> = (Returned None, eng1, it1)"
    and i1: "getattr_invalidated it1" and t1: "notification_receiver_thread eng1 \<noteq> None"
    by (elim exE conjE)
  let ?eng2 = "notification_receive_func eng1"
  note t = reconfiguration_flag_lifecycle[where eng = eng1 and it = it1 and msg = ?msg
      and is_alive = "\<lambda>k. False" and run = ?run and result = "()"]
  from t have n2: "need_reconfiguration ?eng2"
    by (elim conjE)
  from t have t2: "notification_receiver_thread ?eng2 = notification_receiver_thread eng1"
    by (elim conjE)
  have d: "\<exists>k. \<not> (\<lambda>k::nat. k < 2) k" by (rule exI[of _ 2]) simp
  note u = reconfiguration_flag_lifecycle[where eng = ?eng2 and it = it1 and msg = ?msg
      and is_alive = "\<lambda>k. k < 2" and run = ?run and result = "()"]
  from t1 t2 have t3: "notification_receiver_thread ?eng2 \<noteq> None" by simp
  from u have "need_reconfiguration ?eng2 \<and> notification_receiver_thread ?eng2 \<noteq> None \<and>
      (\<exists>k. \<not> (\<lambda>k::nat. k < 2) k) \<longrightarrow>
      execute (\<lambda>k. k < 2) ?run ?eng2 it1 = (Returned None, ?eng2, it1)"
    by (elim conjE)
  with n2 t3 d have e2: "execute (\<lambda>k. k < 2) ?run ?eng2 it1 = (Returned None, ?eng2, it1)"
    by (elim impE) (intro conjI)
  from u have r: "\<not> need_reconfiguration (snd (reconfigure (Inr ()) ?eng2))"
    by (elim conjE)
  from e1 i1 n2 e2 r show ?thesis by (intro exI conjI)
qed

section \<open>Properties of the constructor\<close>

text \<open>
  Claim C10. The constructor never completes: it fails one of its first two assertions,
  or the read of \<^verbatim>\<open>self.my_rank\<close>, which the annotation left unbound, raises
  \<^verbatim>\<open>AttributeError\<close>, whatever the arguments and the rest of the constructor.
\<close>

theorem pipeline_init_never_completes:
  "pipeline_init dist_is_initialized num_stages num_gpus_per_node ranks rest =
     Inl (if dist_is_initialized \<and> int (length ranks) = int num_stages * num_gpus_per_node
          then AttributeError else AssertionError)"
  by (simp add: pipeline_init_def read_attr_def annotate_attr_def)

theorem pipeline_init_never_completes_witness:
  "pipeline_init True 2 1 [0, 1] (\<lambda>self my_rank. Inr ()) = Inl AttributeError"
  using pipeline_init_never_completes[of True 2 1 "[0, 1]" "\<lambda>self my_rank. Inr ()"]
  by simp

end
